theory Spec2Isabelle
  imports Complex_Main
begin

section \<open>Data model\<close>

text \<open>
  JavaScript numbers are modelled as mathematical reals (no rounding, no NaN); the frame
  counters, which only ever hold small non-negative integers, are naturals.
\<close>

text \<open>A point \<open>{x, y, z}\<close>: a hand landmark, \<open>palmPosition\<close>, or a \<open>THREE.Vector3\<close>.\<close>

record vec3 =
  vx :: real
  vy :: real
  vz :: real

text \<open>\<open>HandData\<close> of \<open>types.ts\<close>.\<close>

record HandData =
  hasHand :: bool
  isOpen :: bool
  isClosed :: bool
  pinchDistance :: real
  isPinching :: bool
  palmPosition :: vec3

text \<open>The four string values that \<open>persistenceRef.current.lastState\<close> takes.\<close>

datatype gesture = NEUTRAL | FIST | OPEN | PINCH

text \<open>\<open>smoothedRef\<close> and \<open>persistenceRef\<close> of \<open>HandTracker.tsx\<close>.\<close>

record smoothed =
  sm_x :: real
  sm_y :: real
  sm_pinch :: real

record persistence =
  fistFrames :: nat
  pinchFrames :: nat
  openFrames :: nat
  lastState :: gesture

text \<open>The refs that \<open>predict\<close> reads and writes.\<close>

record tracker =
  smoothedRef :: smoothed
  persistenceRef :: persistence
  missingHandFramesRef :: nat
  lastValidHandDataRef :: HandData

definition origin :: vec3 where
  "origin = \<lparr>vx = 0, vy = 0, vz = 0\<rparr>"

text \<open>The value of \<open>resetData\<close>, which is also the initial \<open>lastValidHandDataRef\<close>.\<close>

definition resetData :: HandData where
  "resetData = \<lparr>hasHand = False, isOpen = False, isClosed = False, pinchDistance = 1,
                 isPinching = False, palmPosition = origin\<rparr>"

definition init_tracker :: tracker where
  "init_tracker =
     \<lparr>smoothedRef = \<lparr>sm_x = 0, sm_y = 0, sm_pinch = 1\<rparr>,
      persistenceRef = \<lparr>fistFrames = 0, pinchFrames = 0, openFrames = 0, lastState = NEUTRAL\<rparr>,
      missingHandFramesRef = 0,
      lastValidHandDataRef = resetData\<rparr>"

definition GRACE_LIMIT :: nat where
  "GRACE_LIMIT = 40"

definition THRESHOLD :: nat where
  "THRESHOLD = 3"

section \<open>Gesture classifier (\<open>predict\<close>, the block under \<open>results.landmarks.length > 0\<close>)\<close>

text \<open>The locals of \<open>predict\<close> that the landmark block hands to the stabilizer block.\<close>

record frame_features =
  rawX :: real
  rawY :: real
  targetPinch :: real
  frameIsFist :: bool
  frameIsPinch :: bool
  frameIsOpen :: bool

text \<open>\<open>Math.hypot\<close> of three arguments.\<close>

definition hypot3 :: "real \<Rightarrow> real \<Rightarrow> real \<Rightarrow> real" where
  "hypot3 a b c = sqrt (a * a + b * b + c * c)"

text \<open>The local function \<open>d(i, j)\<close>: distance between landmarks \<open>i\<close> and \<open>j\<close>.\<close>

definition d :: "vec3 list \<Rightarrow> nat \<Rightarrow> nat \<Rightarrow> real" where
  "d lm i j = hypot3 (vx (lm ! i) - vx (lm ! j)) (vy (lm ! i) - vy (lm ! j))
                     (vz (lm ! i) - vz (lm ! j))"

definition tips :: "nat list" where
  "tips = [8, 12, 16, 20]"

text \<open>
  The \<open>tips.forEach\<close> loop: one step per fingertip, on the pair
  \<open>(foldedCount, extendedCount)\<close>.
\<close>

definition count_step :: "vec3 list \<Rightarrow> real \<Rightarrow> nat \<Rightarrow> nat \<times> nat \<Rightarrow> nat \<times> nat" where
  "count_step lm palmScale t c =
     (let dist = d lm 0 t;
          folded = (if dist < palmScale * 1.4 then fst c + 1 else fst c);
          extended = (if dist > palmScale * 1.7 then snd c + 1 else snd c)
      in (folded, extended))"

definition count_tips :: "vec3 list \<Rightarrow> real \<Rightarrow> nat \<times> nat" where
  "count_tips lm palmScale = fold (count_step lm palmScale) tips (0, 0)"

text \<open>
  The landmark block. Reading a landmark that the frame does not have yields
  \<open>undefined\<close> in JavaScript and the property access on it throws; the throw is caught by
  the \<open>try\<close>/\<open>catch\<close> around the tick. The block reads landmarks 0 and 9 always and
  landmarks 4, 8, 12, 16 and 20 when \<open>palmScale > 0\<close>; \<open>None\<close> is that throw.
\<close>

definition classify :: "vec3 list \<Rightarrow> frame_features option" where
  "classify lm =
     (if length lm \<le> 9 then None
      else
        let x = (0.5 - vx (lm ! 0)) * 6;
            y = (0.5 - vy (lm ! 0)) * 6;
            palmScale = d lm 0 9
        in if palmScale > 0 then
             (if length lm \<le> 20 then None
              else
                let pinchDist = d lm 4 8;
                    normPinch = pinchDist / palmScale;
                    tp = min (max normPinch 0) 1;
                    foldedCount = fst (count_tips lm palmScale);
                    extendedCount = snd (count_tips lm palmScale);
                    middleFingerDist = d lm 0 12;
                    isMiddleExtended = (middleFingerDist > palmScale * 1.5)
                in if foldedCount \<ge> 3 then
                     Some \<lparr>rawX = x, rawY = y, targetPinch = tp,
                           frameIsFist = True, frameIsPinch = False, frameIsOpen = False\<rparr>
                   else if extendedCount \<ge> 3 then
                     Some \<lparr>rawX = x, rawY = y, targetPinch = tp,
                           frameIsFist = False, frameIsPinch = False, frameIsOpen = True\<rparr>
                   else if normPinch < 0.5 \<and> isMiddleExtended then
                     Some \<lparr>rawX = x, rawY = y, targetPinch = tp,
                           frameIsFist = False, frameIsPinch = True, frameIsOpen = False\<rparr>
                   else
                     Some \<lparr>rawX = x, rawY = y, targetPinch = tp,
                           frameIsFist = False, frameIsPinch = False, frameIsOpen = False\<rparr>)
           else Some \<lparr>rawX = x, rawY = y, targetPinch = 1,
                      frameIsFist = False, frameIsPinch = False, frameIsOpen = False\<rparr>)"

section \<open>Temporal stabilizer (\<open>predict\<close>, the \<open>if (hasHand) ... else ...\<close> block)\<close>

text \<open>The three counter updates and the choice of \<open>finalState\<close>.\<close>

definition update_persistence :: "persistence \<Rightarrow> frame_features \<Rightarrow> persistence" where
  "update_persistence p f =
     (let ff = (if frameIsFist f then fistFrames p + 1 else 0);
          pf = (if frameIsPinch f then pinchFrames p + 1 else 0);
          opf = (if frameIsOpen f then openFrames p + 1 else 0);
          finalState =
            (if pf > THRESHOLD then PINCH
             else if ff > THRESHOLD then FIST
             else if opf > THRESHOLD then OPEN
             else if ff = 0 \<and> pf = 0 \<and> opf = 0 then NEUTRAL
             else lastState p)
      in \<lparr>fistFrames = ff, pinchFrames = pf, openFrames = opf, lastState = finalState\<rparr>)"

definition alpha :: real where
  "alpha = 0.3"

definition update_smoothed :: "smoothed \<Rightarrow> frame_features \<Rightarrow> smoothed" where
  "update_smoothed s f =
     \<lparr>sm_x = sm_x s + (rawX f - sm_x s) * alpha,
      sm_y = sm_y s + (rawY f - sm_y s) * alpha,
      sm_pinch = sm_pinch s + (targetPinch f - sm_pinch s) * alpha\<rparr>"

text \<open>
  The \<open>hasHand\<close> branch, together with the reset of \<open>missingHandFramesRef\<close> that
  the landmark block does for the same frame. The result is the new refs and the value
  passed to \<open>onHandUpdate\<close>.
\<close>

definition hand_present :: "tracker \<Rightarrow> frame_features \<Rightarrow> tracker \<times> HandData" where
  "hand_present st f =
     (let p = update_persistence (persistenceRef st) f;
          s = update_smoothed (smoothedRef st) f;
          newData = \<lparr>hasHand = True,
                     isOpen = (lastState p = OPEN),
                     isClosed = (lastState p = FIST),
                     pinchDistance = sm_pinch s,
                     isPinching = (lastState p = PINCH),
                     palmPosition = \<lparr>vx = sm_x s, vy = sm_y s, vz = 0\<rparr>\<rparr>
      in (st\<lparr>smoothedRef := s, persistenceRef := p, missingHandFramesRef := 0,
             lastValidHandDataRef := newData\<rparr>, newData))"

text \<open>The \<open>else\<close> branch: no hand in this frame.\<close>

definition hand_missing :: "tracker \<Rightarrow> tracker \<times> HandData" where
  "hand_missing st =
     (let m = missingHandFramesRef st + 1
      in if m < GRACE_LIMIT then (st\<lparr>missingHandFramesRef := m\<rparr>, lastValidHandDataRef st)
         else (st\<lparr>missingHandFramesRef := m,
                   persistenceRef := (persistenceRef st)\<lparr>lastState := NEUTRAL\<rparr>\<rparr>, resetData))"

text \<open>
  One stabilizer tick on what the classifier found: \<open>None\<close> when no hand was detected,
  \<open>Some f\<close> when a hand gave the features \<open>f\<close>.
\<close>

definition stabilize :: "tracker \<Rightarrow> frame_features option \<Rightarrow> tracker \<times> HandData" where
  "stabilize st obs = (case obs of None \<Rightarrow> hand_missing st | Some f \<Rightarrow> hand_present st f)"

text \<open>
  One processed video frame of \<open>predict\<close>. \<open>results\<close> is \<open>results.landmarks\<close>, the list
  of detected hands. The second component is the argument of \<open>onHandUpdate\<close>, or \<open>None\<close>
  when the frame threw before the call (only \<open>missingHandFramesRef\<close> was written by then).
\<close>

definition predict :: "tracker \<Rightarrow> vec3 list list \<Rightarrow> tracker \<times> HandData option" where
  "predict st results =
     (case results of
        [] \<Rightarrow> (let r = hand_missing st in (fst r, Some (snd r)))
      | lm # _ \<Rightarrow>
          (case classify lm of
             None \<Rightarrow> (st\<lparr>missingHandFramesRef := 0\<rparr>, None)
           | Some f \<Rightarrow> (let r = hand_present st f in (fst r, Some (snd r)))))"

text \<open>A run of stabilizer ticks: the refs after the run.\<close>

fun run_stabilizer :: "tracker \<Rightarrow> frame_features option list \<Rightarrow> tracker" where
  "run_stabilizer st [] = st"
| "run_stabilizer st (obs # rest) = run_stabilizer (fst (stabilize st obs)) rest"

text \<open>The value emitted on the last tick of a non-empty run.\<close>

definition emitted :: "tracker \<Rightarrow> frame_features option list \<Rightarrow> HandData" where
  "emitted st obss = snd (stabilize (run_stabilizer st (butlast obss)) (last obss))"


text \<open>
  The raw per-frame gesture that the three flags stand for (the classifier sets at most
  one of them).
\<close>

definition raw_gesture :: "frame_features \<Rightarrow> gesture" where
  "raw_gesture f =
     (if frameIsFist f then FIST else if frameIsOpen f then OPEN
      else if frameIsPinch f then PINCH else NEUTRAL)"

section \<open>Orientation and shape controller (\<open>ParticleSystem\<close>, its \<open>useFrame\<close>)\<close>

text \<open>A \<open>THREE.Euler\<close>: the three angles of \<open>containerRotation\<close>.\<close>

record euler =
  ex :: real
  ey :: real
  ez :: real

record pos2 =
  px :: real
  py :: real

text \<open>The refs of \<open>ParticleSystem\<close>.\<close>

record particle_refs =
  containerRotation :: euler
  prevHandPos :: pos2
  wasTrackingRef :: bool
  isExplodedRef :: bool

definition init_particle_refs :: particle_refs where
  "init_particle_refs =
     \<lparr>containerRotation = \<lparr>ex = 0, ey = 0, ez = 0\<rparr>, prevHandPos = \<lparr>px = 0, py = 0\<rparr>,
      wasTrackingRef = False, isExplodedRef = False\<rparr>"

text \<open>\<open>THREE.MathUtils.lerp(x, y, t)\<close> of three.js, which is \<open>(1 - t) * x + t * y\<close>.\<close>

definition lerp :: "real \<Rightarrow> real \<Rightarrow> real \<Rightarrow> real" where
  "lerp x y t = (1 - t) * x + t * y"

definition DEADZONE :: real where
  "DEADZONE = 0.003"

definition sensitivity :: real where
  "sensitivity = 0.8"

text \<open>The shape state machine: the new value of \<open>isExplodedRef\<close>.\<close>

definition shape_update :: "bool \<Rightarrow> HandData \<Rightarrow> bool" where
  "shape_update e h =
     (if hasHand h then
        (let e1 = (if isOpen h then True else e) in if isClosed h then False else e1)
      else e)"

text \<open>
  The pair \<open>(dx, dy)\<close> of a tracked frame: the reference position is first reset to the
  palm position when tracking has just started.
\<close>

definition pointer_delta :: "particle_refs \<Rightarrow> HandData \<Rightarrow> real \<times> real" where
  "pointer_delta st h =
     (let prev = (if \<not> wasTrackingRef st
                  then \<lparr>px = vx (palmPosition h), py = vy (palmPosition h)\<rparr>
                  else prevHandPos st)
      in (vx (palmPosition h) - px prev, vy (palmPosition h) - py prev))"

text \<open>The rotation control block.\<close>

definition rotation_control :: "particle_refs \<Rightarrow> HandData \<Rightarrow> particle_refs" where
  "rotation_control st h =
     (if hasHand h then
        (let dx = fst (pointer_delta st h);
             dy = snd (pointer_delta st h);
             r = containerRotation st;
             r' = (if \<bar>dx\<bar> > DEADZONE \<or> \<bar>dy\<bar> > DEADZONE then
                     (if isClosed h then
                        r\<lparr>ey := ey r + dx * sensitivity, ex := lerp (ex r) 0 0.1\<rparr>
                      else if isOpen h then
                        r\<lparr>ex := ex r + dy * sensitivity, ey := ey r + dx * sensitivity\<rparr>
                      else r)
                   else r)
         in st\<lparr>containerRotation := r',
                prevHandPos := \<lparr>px = vx (palmPosition h), py = vy (palmPosition h)\<rparr>,
                wasTrackingRef := True\<rparr>)
      else st\<lparr>wasTrackingRef := False\<rparr>)"

text \<open>The auto-level block, on the value of \<open>isExplodedRef\<close> and the rotation.\<close>

definition auto_level :: "bool \<Rightarrow> euler \<Rightarrow> euler" where
  "auto_level e r = (if \<not> e then r\<lparr>ex := lerp (ex r) 0 0.05, ez := lerp (ez r) 0 0.05\<rparr> else r)"

text \<open>One frame of \<open>ParticleSystem\<close> on the current \<open>handData\<close>.\<close>

definition particle_frame :: "particle_refs \<Rightarrow> HandData \<Rightarrow> particle_refs" where
  "particle_frame st h =
     (let st1 = st\<lparr>isExplodedRef := shape_update (isExplodedRef st) h\<rparr>;
          st2 = rotation_control st1 h
      in st2\<lparr>containerRotation := auto_level (isExplodedRef st2) (containerRotation st2)\<rparr>)"

fun run_frames :: "particle_refs \<Rightarrow> HandData list \<Rightarrow> particle_refs" where
  "run_frames st [] = st"
| "run_frames st (h # hs) = run_frames (particle_frame st h) hs"

text \<open>
  Every pointer delta that a run of frames computes lies in the dead zone (a frame
  without a hand computes none).
\<close>

fun deadzone_run :: "particle_refs \<Rightarrow> HandData list \<Rightarrow> bool" where
  "deadzone_run st [] = True"
| "deadzone_run st (h # hs) =
     ((hasHand h \<longrightarrow> \<bar>fst (pointer_delta st h)\<bar> \<le> DEADZONE \<and> \<bar>snd (pointer_delta st h)\<bar> \<le> DEADZONE)
      \<and> deadzone_run (particle_frame st h) hs)"

text \<open>The number of frames of a run that end with \<open>isExplodedRef\<close> false (shape COMPACT).\<close>

fun compact_ticks :: "particle_refs \<Rightarrow> HandData list \<Rightarrow> nat" where
  "compact_ticks st [] = 0"
| "compact_ticks st (h # hs) =
     (if isExplodedRef (particle_frame st h) then 0 else 1) + compact_ticks (particle_frame st h) hs"

section \<open>Field positions (\<open>SubSystem\<close>, its \<open>useFrame\<close>)\<close>

datatype particle_type =
  foliage | orb_gold | orb_red | orb_silver | snow | cane | photo_placeholder | box

text \<open>\<open>ParticleData\<close> of \<open>types.ts\<close> (the colour plays no part in any position).\<close>

record ParticleData =
  treePos :: vec3
  spherePos :: vec3
  scale :: real
  rotationOffset :: euler
  ptype :: particle_type

text \<open>
  The local target position of object \<open>i\<close>, as both \<open>SubSystem\<close> (\<open>targetPos\<close>) and
  \<open>PhotoGroup\<close> (\<open>localPos\<close>) compute it.
\<close>

definition local_target :: "bool \<Rightarrow> real \<Rightarrow> nat \<Rightarrow> ParticleData \<Rightarrow> vec3" where
  "local_target isExploded time i p =
     (if isExploded then spherePos p
      else (treePos p)\<lparr>vy := vy (treePos p) + sin (time * 1.5 + real i) * 0.05\<rparr>)"

definition lerpFactor :: real where
  "lerpFactor = 0.08"

text \<open>
  One iteration of the \<open>for\<close> loop of \<open>SubSystem\<close> on \<open>currentPositions\<close>, the flat array
  of \<open>3 * data.length\<close> coordinates.
\<close>

definition subsystem_step :: "bool \<Rightarrow> real \<Rightarrow> ParticleData list \<Rightarrow> nat \<Rightarrow> real list \<Rightarrow> real list" where
  "subsystem_step isExploded time data i cur =
     (let targetPos = local_target isExploded time i (data ! i);
          ix = i * 3; iy = i * 3 + 1; iz = i * 3 + 2;
          cur1 = cur[ix := cur ! ix + (vx targetPos - cur ! ix) * lerpFactor];
          cur2 = cur1[iy := cur1 ! iy + (vy targetPos - cur1 ! iy) * lerpFactor]
      in cur2[iz := cur2 ! iz + (vz targetPos - cur2 ! iz) * lerpFactor])"

definition subsystem_frame :: "bool \<Rightarrow> real \<Rightarrow> ParticleData list \<Rightarrow> real list \<Rightarrow> real list" where
  "subsystem_frame isExploded time data cur =
     fold (subsystem_step isExploded time data) [0..<length data] cur"

section \<open>Focus selection (\<open>PhotoGroup\<close> and \<open>PhotoFrame\<close>)\<close>

text \<open>\<open>Vector3.distanceTo\<close> of three.js.\<close>

definition distanceTo :: "vec3 \<Rightarrow> vec3 \<Rightarrow> real" where
  "distanceTo a b = hypot3 (vx a - vx b) (vy a - vy b) (vz a - vz b)"

text \<open>\<open>activePhotos\<close>: \<open>data.slice(0, textures.length)\<close>.\<close>

definition activePhotos :: "ParticleData list \<Rightarrow> nat \<Rightarrow> ParticleData list" where
  "activePhotos data ntex = take ntex data"

text \<open>
  The world position of photo \<open>i\<close>. \<open>applyRot\<close> stands for three.js's rotation of a vector
  by the quaternion of an Euler triple (\<open>applyQuaternion\<close> after \<open>setFromEuler\<close>).
\<close>

definition photo_world_pos ::
  "(euler \<Rightarrow> vec3 \<Rightarrow> vec3) \<Rightarrow> euler \<Rightarrow> bool \<Rightarrow> real \<Rightarrow> nat \<Rightarrow> ParticleData \<Rightarrow> vec3" where
  "photo_world_pos applyRot rot isExploded time i p = applyRot rot (local_target isExploded time i p)"

text \<open>
  The minimum search of the \<open>forEach\<close> loop, on the pair \<open>(minDistance, idx)\<close>;
  \<open>None\<close> is the initial \<open>Infinity\<close>, below which every distance lies.
\<close>

definition closest_step :: "real option \<times> int \<Rightarrow> nat \<times> real \<Rightarrow> real option \<times> int" where
  "closest_step acc e =
     (if (case fst acc of None \<Rightarrow> True | Some m \<Rightarrow> snd e < m)
      then (Some (snd e), int (fst e)) else acc)"

definition closest_search :: "real list \<Rightarrow> real option \<times> int" where
  "closest_search dists = fold (\<lambda>e acc. closest_step acc e) (enumerate 0 dists) (None, - 1)"

definition cutoff :: real where
  "cutoff = 12.0"

text \<open>The distances of the active photos to the camera, in order.\<close>

definition photo_distances ::
  "(euler \<Rightarrow> vec3 \<Rightarrow> vec3) \<Rightarrow> euler \<Rightarrow> bool \<Rightarrow> real \<Rightarrow> vec3 \<Rightarrow> ParticleData list \<Rightarrow> real list" where
  "photo_distances applyRot rot isExploded time camera photos =
     map (\<lambda>(i, p). distanceTo (photo_world_pos applyRot rot isExploded time i p) camera)
         (enumerate 0 photos)"

text \<open>
  One frame of \<open>PhotoGroup\<close>: the new \<open>closestIndex\<close> (\<open>prev\<close> is the old one, kept when
  there is no active photo).
\<close>

definition photo_group_frame ::
  "(euler \<Rightarrow> vec3 \<Rightarrow> vec3) \<Rightarrow> euler \<Rightarrow> bool \<Rightarrow> real \<Rightarrow> vec3 \<Rightarrow> ParticleData list \<Rightarrow> int \<Rightarrow> int" where
  "photo_group_frame applyRot rot isExploded time camera photos prev =
     (if length photos = 0 then prev
      else
        let r = closest_search (photo_distances applyRot rot isExploded time camera photos)
        in if (case fst r of None \<Rightarrow> False | Some m \<Rightarrow> m < cutoff) then snd r else - 1)"

text \<open>
  The positions in \<open>newDisplayProps\<close> that the same frame stores with
  \<open>setDisplayProps\<close> (\<open>prev\<close> is the old list, kept when there is no active photo).
\<close>

definition photo_display_props ::
  "(euler \<Rightarrow> vec3 \<Rightarrow> vec3) \<Rightarrow> euler \<Rightarrow> bool \<Rightarrow> real \<Rightarrow> ParticleData list \<Rightarrow> vec3 list \<Rightarrow> vec3 list" where
  "photo_display_props applyRot rot isExploded time photos prev =
     (if length photos = 0 then prev
      else map (\<lambda>(i, p). photo_world_pos applyRot rot isExploded time i p) (enumerate 0 photos))"

text \<open>The props \<open>isHovered\<close> and \<open>isSelected\<close> that photo \<open>i\<close> is rendered with.\<close>

definition isHovered :: "int \<Rightarrow> nat \<Rightarrow> bool" where
  "isHovered closestIndex i = (closestIndex = int i)"

definition isSelected :: "int \<Rightarrow> HandData \<Rightarrow> nat \<Rightarrow> bool" where
  "isSelected closestIndex h i = (closestIndex = int i \<and> isPinching h)"

text \<open>\<open>Vector3.lerp(v, alpha)\<close> of three.js: each coordinate moves by \<open>alpha\<close> of the gap.\<close>

definition vec_lerp :: "vec3 \<Rightarrow> vec3 \<Rightarrow> real \<Rightarrow> vec3" where
  "vec_lerp a v t = \<lparr>vx = vx a + (vx v - vx a) * t, vy = vy a + (vy v - vy a) * t,
                    vz = vz a + (vz v - vz a) * t\<rparr>"

text \<open>
  The position part of one frame of \<open>PhotoFrame\<close>: \<open>cur\<close> is the displayed position of
  the group, \<open>position\<close> the prop, \<open>front\<close> the point five units in front of the camera,
  \<open>delta\<close> the frame's duration.
\<close>

definition photo_frame_target :: "bool \<Rightarrow> bool \<Rightarrow> vec3 \<Rightarrow> real \<Rightarrow> vec3 \<Rightarrow> vec3" where
  "photo_frame_target selected hovered position elapsed front =
     (if selected then front
      else if hovered then position\<lparr>vy := vy position + sin (elapsed * 3) * 0.1\<rparr>
      else position)"

definition photo_frame_position ::
  "vec3 \<Rightarrow> bool \<Rightarrow> bool \<Rightarrow> vec3 \<Rightarrow> real \<Rightarrow> vec3 \<Rightarrow> real \<Rightarrow> vec3" where
  "photo_frame_position cur selected hovered position elapsed front delta =
     vec_lerp cur (photo_frame_target selected hovered position elapsed front) (10 * delta)"

section \<open>The pipeline: one stabilizer tick, then one render frame\<close>

text \<open>
  The props that stay fixed over a run: the \<open>data\<close> of a \<open>SubSystem\<close>, the
  \<open>activePhotos\<close> of \<open>PhotoGroup\<close>, and three.js's rotation of a vector by an Euler
  triple.
\<close>

record scene =
  sub_data :: "ParticleData list"
  photo_data :: "ParticleData list"
  rotateBy :: "euler \<Rightarrow> vec3 \<Rightarrow> vec3"

text \<open>
  The refs and state that a tick reads and writes: those of \<open>HandTracker\<close>,
  \<open>handDataRef\<close> of \<open>App\<close>, those of \<open>ParticleSystem\<close>, \<open>currentPositions\<close> of the
  \<open>SubSystem\<close> and the positions in \<open>displayProps\<close> of \<open>PhotoGroup\<close>.
\<close>

record pipeline =
  tracker_refs :: tracker
  handDataRef :: HandData
  particles :: particle_refs
  currentPositions :: "real list"
  displayProps :: "vec3 list"

text \<open>The \<open>useEffect\<close> of \<open>SubSystem\<close>: every object starts at its tree anchor.\<close>

definition init_positions :: "ParticleData list \<Rightarrow> real list" where
  "init_positions data =
     concat (map (\<lambda>p. [vx (treePos p), vy (treePos p), vz (treePos p)]) data)"

definition init_pipeline :: "scene \<Rightarrow> pipeline" where
  "init_pipeline sc =
     \<lparr>tracker_refs = init_tracker, handDataRef = resetData, particles = init_particle_refs,
      currentPositions = init_positions (sub_data sc), displayProps = []\<rparr>"

text \<open>
  One tick, on what the classifier found and the clock's elapsed time: the stabilizer
  tick, whose value \<open>onHandUpdate\<close> stores in \<open>handDataRef\<close>, then one render frame. In
  a render frame the callbacks run in the order of their subscription, and those of
  \<open>SubSystem\<close> and \<open>PhotoGroup\<close> are subscribed before that of their parent
  \<open>ParticleSystem\<close>: they read \<open>isExplodedRef\<close> and \<open>containerRotation\<close> as the frame
  before left them, and \<open>ParticleSystem\<close> writes both afterwards.
\<close>

definition pipeline_tick ::
  "scene \<Rightarrow> pipeline \<Rightarrow> frame_features option \<times> real \<Rightarrow> pipeline" where
  "pipeline_tick sc s x =
     (let r = stabilize (tracker_refs s) (fst x);
          time = snd x;
          isExploded = isExplodedRef (particles s);
          rot = containerRotation (particles s)
      in \<lparr>tracker_refs = fst r, handDataRef = snd r,
          particles = particle_frame (particles s) (snd r),
          currentPositions = subsystem_frame isExploded time (sub_data sc) (currentPositions s),
          displayProps = photo_display_props (rotateBy sc) rot isExploded time (photo_data sc)
                           (displayProps s)\<rparr>)"

fun run_pipeline ::
  "scene \<Rightarrow> pipeline \<Rightarrow> (frame_features option \<times> real) list \<Rightarrow> pipeline" where
  "run_pipeline sc s [] = s"
| "run_pipeline sc s (x # rest) = run_pipeline sc (pipeline_tick sc s x) rest"

text \<open>
  The coordinates of object \<open>i\<close> in \<open>cur'\<close> are those in \<open>cur\<close> moved by 0.08 of their
  gap to the target \<open>tgt\<close>.
\<close>

definition moved_towards :: "real list \<Rightarrow> real list \<Rightarrow> nat \<Rightarrow> vec3 \<Rightarrow> bool" where
  "moved_towards cur cur' i tgt \<longleftrightarrow>
     cur' ! (3 * i) = cur ! (3 * i) + (vx tgt - cur ! (3 * i)) * 0.08
   \<and> cur' ! (3 * i + 1) = cur ! (3 * i + 1) + (vy tgt - cur ! (3 * i + 1)) * 0.08
   \<and> cur' ! (3 * i + 2) = cur ! (3 * i + 2) + (vz tgt - cur ! (3 * i + 2)) * 0.08"

text \<open>
  The number of FIST frames in a row at the end of a run, counted over the frames that
  have a hand.
\<close>

definition fist_streak :: "frame_features option list \<Rightarrow> nat" where
  "fist_streak obss = length (takeWhile frameIsFist (rev (List.map_filter id obss)))"

text \<open>
  The invariant of a pipeline whose shape is EXPANDED and whose stable state is not FIST.
\<close>

definition not_closed :: "pipeline \<Rightarrow> bool" where
  "not_closed s \<longleftrightarrow> lastState (persistenceRef (tracker_refs s)) \<noteq> FIST
      \<and> \<not> isClosed (lastValidHandDataRef (tracker_refs s))
      \<and> isExplodedRef (particles s)"

section \<open>Example inputs\<close>

text \<open>Three classified frames, one per gesture, with the pointer at \<open>(3, 0)\<close>.\<close>

definition open_frame :: frame_features where
  "open_frame = \<lparr>rawX = 3, rawY = 0, targetPinch = 1,
                  frameIsFist = False, frameIsPinch = False, frameIsOpen = True\<rparr>"

definition fist_frame :: frame_features where
  "fist_frame = \<lparr>rawX = 3, rawY = 0, targetPinch = 1,
                  frameIsFist = True, frameIsPinch = False, frameIsOpen = False\<rparr>"

text \<open>
  Two frames of 21 landmarks: a hand with the four fingertips at twice the palm scale from
  the wrist, and a frame whose landmarks all coincide.
\<close>

definition open_hand :: "vec3 list" where
  "open_hand =
     map (\<lambda>i. if i = 9 then \<lparr>vx = 1, vy = 0, vz = 0\<rparr>
              else if i \<in> {8, 12, 16, 20} then \<lparr>vx = 2, vy = 0, vz = 0\<rparr>
              else origin) [0..<21]"

definition collapsed_hand :: "vec3 list" where
  "collapsed_hand = replicate 21 origin"

text \<open>
  A tracked hand with given open and closed flags and palm position, and refs of the
  particle system with a tilted container and a given shape.
\<close>

definition tracked_hand :: "bool \<Rightarrow> bool \<Rightarrow> real \<Rightarrow> real \<Rightarrow> HandData" where
  "tracked_hand op cl x y =
     \<lparr>hasHand = True, isOpen = op, isClosed = cl, pinchDistance = 1, isPinching = False,
      palmPosition = \<lparr>vx = x, vy = y, vz = 0\<rparr>\<rparr>"

definition tilted_refs :: "bool \<Rightarrow> particle_refs" where
  "tilted_refs e = init_particle_refs\<lparr>containerRotation := \<lparr>ex = 1, ey = 2, ez = 3\<rparr>,
                                      isExplodedRef := e\<rparr>"

text \<open>
  A scene for the focus selector: photos on the \<open>z\<close> axis, the container not rotated,
  the camera at \<open>(0, 0, 14)\<close>, and a pinching hand.
\<close>

definition photo_at :: "real \<Rightarrow> ParticleData" where
  "photo_at z = \<lparr>treePos = origin, spherePos = \<lparr>vx = 0, vy = 0, vz = z\<rparr>, scale = 0.25,
                 rotationOffset = \<lparr>ex = 0, ey = 0, ez = 0\<rparr>, ptype = photo_placeholder\<rparr>"

definition no_rotation :: "euler \<Rightarrow> vec3 \<Rightarrow> vec3" where
  "no_rotation r v = v"

definition camera_position :: vec3 where
  "camera_position = \<lparr>vx = 0, vy = 0, vz = 14\<rparr>"

definition upright :: euler where
  "upright = \<lparr>ex = 0, ey = 0, ez = 0\<rparr>"

definition near_far :: "ParticleData list" where
  "near_far = [photo_at 6, photo_at (- 1)]"

definition far_far :: "ParticleData list" where
  "far_far = [photo_at 1, photo_at (- 1)]"

text \<open>
  Two photos with swapped anchors: the first has its tree anchor near the camera and its
  sphere anchor far from it, the second the other way round.
\<close>

definition photo_between :: "real \<Rightarrow> real \<Rightarrow> ParticleData" where
  "photo_between zt zs =
     \<lparr>treePos = \<lparr>vx = 0, vy = 0, vz = zt\<rparr>, spherePos = \<lparr>vx = 0, vy = 0, vz = zs\<rparr>,
      scale = 0.25, rotationOffset = \<lparr>ex = 0, ey = 0, ez = 0\<rparr>, ptype = photo_placeholder\<rparr>"

definition swapped :: "ParticleData list" where
  "swapped = [photo_between 6 (- 1), photo_between (- 1) 6]"

definition pinching_hand :: HandData where
  "pinching_hand = \<lparr>hasHand = True, isOpen = False, isClosed = False, pinchDistance = 0,
                     isPinching = True, palmPosition = origin\<rparr>"

text \<open>An ornament with its tree anchor at the origin and its sphere anchor on the \<open>z\<close> axis.\<close>

definition orb_at :: "real \<Rightarrow> ParticleData" where
  "orb_at z = \<lparr>treePos = origin, spherePos = \<lparr>vx = 0, vy = 0, vz = z\<rparr>, scale = 1,
               rotationOffset = \<lparr>ex = 0, ey = 0, ez = 0\<rparr>, ptype = orb_red\<rparr>"

text \<open>A scene of two ornaments and the two photos, with a container that does not rotate.\<close>

definition example_scene :: scene where
  "example_scene =
     \<lparr>sub_data = [orb_at 5, orb_at 10], photo_data = near_far, rotateBy = no_rotation\<rparr>"

section \<open>Stabilizer: facts about single ticks and runs\<close>

text \<open>A processed frame of \<open>predict\<close> is a stabilizer tick on what the classifier found.\<close>

lemma predict_no_hand:
  "predict st [] = (fst (stabilize st None), Some (snd (stabilize st None)))"
  by (simp add: predict_def stabilize_def Let_def)

lemma predict_hand:
  "classify lm = Some f \<Longrightarrow>
     predict st (lm # hands) = (fst (stabilize st (Some f)), Some (snd (stabilize st (Some f))))"
  by (simp add: predict_def stabilize_def Let_def)

lemma classify_flags_exclusive:
  "classify lm = Some f \<Longrightarrow>
     \<not> (frameIsFist f \<and> frameIsPinch f) \<and> \<not> (frameIsFist f \<and> frameIsOpen f)
     \<and> \<not> (frameIsPinch f \<and> frameIsOpen f)"
  by (auto simp add: classify_def Let_def split: if_splits)



lemma run_stabilizer_append:
  "run_stabilizer st (xs @ ys) = run_stabilizer (run_stabilizer st xs) ys"
  by (induction xs arbitrary: st) simp_all

lemma run_stabilizer_snoc:
  "run_stabilizer st (xs @ [obs]) = fst (stabilize (run_stabilizer st xs) obs)"
  by (simp add: run_stabilizer_append)

lemma persistence_hand_present:
  "persistenceRef (fst (hand_present st f)) = update_persistence (persistenceRef st) f"
  by (simp add: hand_present_def Let_def)

lemma hand_missing_fields:
  "smoothedRef (fst (hand_missing st)) = smoothedRef st"
  "lastValidHandDataRef (fst (hand_missing st)) = lastValidHandDataRef st"
  "missingHandFramesRef (fst (hand_missing st)) = missingHandFramesRef st + 1"
  "fistFrames (persistenceRef (fst (hand_missing st))) = fistFrames (persistenceRef st)"
  "pinchFrames (persistenceRef (fst (hand_missing st))) = pinchFrames (persistenceRef st)"
  "openFrames (persistenceRef (fst (hand_missing st))) = openFrames (persistenceRef st)"
  "lastState (persistenceRef (fst (hand_missing st))) =
     (if missingHandFramesRef st + 1 < 40 then lastState (persistenceRef st) else NEUTRAL)"
  "snd (hand_missing st) =
     (if missingHandFramesRef st + 1 < 40 then lastValidHandDataRef st else resetData)"
  by (simp_all add: hand_missing_def Let_def GRACE_LIMIT_def)

lemma run_missing_fields:
  "smoothedRef (run_stabilizer st (replicate n None)) = smoothedRef st"
  "lastValidHandDataRef (run_stabilizer st (replicate n None)) = lastValidHandDataRef st"
  "missingHandFramesRef (run_stabilizer st (replicate n None)) = missingHandFramesRef st + n"
  "fistFrames (persistenceRef (run_stabilizer st (replicate n None))) = fistFrames (persistenceRef st)"
  "pinchFrames (persistenceRef (run_stabilizer st (replicate n None))) = pinchFrames (persistenceRef st)"
  "openFrames (persistenceRef (run_stabilizer st (replicate n None))) = openFrames (persistenceRef st)"
  by (induction n arbitrary: st; simp add: stabilize_def hand_missing_fields)+

lemma run_missing_lastState:
  "lastState (persistenceRef (run_stabilizer st (replicate n None))) =
     (if n = 0 \<or> missingHandFramesRef st + n < 40 then lastState (persistenceRef st) else NEUTRAL)"
  by (induction n arbitrary: st) (auto simp add: stabilize_def hand_missing_fields)

lemma hand_present_fields:
  "missingHandFramesRef (fst (hand_present st f)) = 0"
  "lastValidHandDataRef (fst (hand_present st f)) = snd (hand_present st f)"
  "smoothedRef (fst (hand_present st f)) = update_smoothed (smoothedRef st) f"
  by (simp_all add: hand_present_def Let_def)

lemma emitted_Cons: "obss \<noteq> [] \<Longrightarrow> emitted st (obs # obss) = emitted (fst (stabilize st obs)) obss"
  by (simp add: emitted_def)

lemma emitted_missing:
  "emitted st (replicate (Suc n) None) =
     (if missingHandFramesRef st + Suc n < 40 then lastValidHandDataRef st else resetData)"
proof -
  have "butlast (replicate (Suc n) (None :: frame_features option)) = replicate n None"
    by (simp add: butlast_conv_take del: replicate_Suc)
  then show ?thesis
    by (simp add: emitted_def stabilize_def hand_missing_fields run_missing_fields del: replicate_Suc butlast.simps)
qed

lemma persistence_after_dropout:
  "persistenceRef (run_stabilizer st (replicate n None @ [Some f])) =
     update_persistence (persistenceRef (run_stabilizer st (replicate n None))) f"
  by (simp add: run_stabilizer_snoc stabilize_def persistence_hand_present)

section \<open>Stabilizer: the claims\<close>

text \<open>
  Claim C1. On a tick with a hand, after any run of ticks, each counter is its old value
  plus one when its flag is set and 0 otherwise, and the stable state follows from the new
  counters in the order: pinch counter above 3 gives PINCH, else fist counter above 3 gives
  FIST, else open counter above 3 gives OPEN, else all three counters 0 gives NEUTRAL, else
  the previous stable state is kept. So the stable state changes to a gesture only on a
  tick where that gesture's counter exceeds 3, and changes to NEUTRAL on such a tick only
  when all three counters are 0.
\<close>

theorem stable_state_priority:
  "let before = persistenceRef (run_stabilizer st0 obss);
       after = persistenceRef (run_stabilizer st0 (obss @ [Some f]))
   in fistFrames after = (if frameIsFist f then fistFrames before + 1 else 0)
    \<and> pinchFrames after = (if frameIsPinch f then pinchFrames before + 1 else 0)
    \<and> openFrames after = (if frameIsOpen f then openFrames before + 1 else 0)
    \<and> lastState after =
        (if pinchFrames after > 3 then PINCH
         else if fistFrames after > 3 then FIST
         else if openFrames after > 3 then OPEN
         else if fistFrames after = 0 \<and> pinchFrames after = 0 \<and> openFrames after = 0
              then NEUTRAL
         else lastState before)
    \<and> (lastState after \<noteq> lastState before \<longrightarrow>
          (lastState after = PINCH \<longrightarrow> pinchFrames after > 3)
        \<and> (lastState after = FIST \<longrightarrow> fistFrames after > 3)
        \<and> (lastState after = OPEN \<longrightarrow> openFrames after > 3)
        \<and> (lastState after = NEUTRAL \<longrightarrow>
              fistFrames after = 0 \<and> pinchFrames after = 0 \<and> openFrames after = 0))"
proof -
  define p where "p = persistenceRef (run_stabilizer st0 obss)"
  have after: "persistenceRef (run_stabilizer st0 (obss @ [Some f])) = update_persistence p f"
    by (simp add: run_stabilizer_snoc stabilize_def persistence_hand_present p_def)
  show ?thesis
    unfolding after Let_def p_def [symmetric]
    by (simp add: update_persistence_def THRESHOLD_def Let_def)
qed


theorem stable_state_priority_witness:
  "lastState (persistenceRef (run_stabilizer init_tracker
      [Some open_frame, Some open_frame, Some open_frame])) = NEUTRAL
   \<and> lastState (persistenceRef (run_stabilizer init_tracker
      ([Some open_frame, Some open_frame, Some open_frame] @ [Some open_frame]))) = OPEN
   \<and> 3 < openFrames (persistenceRef (run_stabilizer init_tracker
      ([Some open_frame, Some open_frame, Some open_frame] @ [Some open_frame])))"
  using stable_state_priority
    [of init_tracker "[Some open_frame, Some open_frame, Some open_frame]" open_frame]
  by (simp add: Let_def init_tracker_def open_frame_def stabilize_def hand_present_def
      update_persistence_def THRESHOLD_def)

text \<open>
  Claim C3. After a tick with a hand, each of the next 39 ticks without a hand emits the
  value that the tick with the hand emitted; the 40th emits the reset value (no hand,
  pointer at the origin, pinch amount 1) and forces the stable state to NEUTRAL. The
  missing-frame counter counts the ticks without a hand and is 0 after the next tick with
  a hand.
\<close>

theorem grace_period:
  "(\<forall>k. 1 \<le> k \<and> k \<le> 39 \<longrightarrow>
        emitted st (Some f # replicate k None) = snd (stabilize st (Some f)))
   \<and> emitted st (Some f # replicate 40 None) =
        \<lparr>hasHand = False, isOpen = False, isClosed = False, pinchDistance = 1,
         isPinching = False, palmPosition = \<lparr>vx = 0, vy = 0, vz = 0\<rparr>\<rparr>
   \<and> lastState (persistenceRef (run_stabilizer st (Some f # replicate 40 None))) = NEUTRAL
   \<and> (\<forall>k. missingHandFramesRef (run_stabilizer st (Some f # replicate k None)) = k)
   \<and> (\<forall>k g. missingHandFramesRef (run_stabilizer st (Some f # replicate k None @ [Some g])) = 0)"
proof -
  let ?st1 = "fst (stabilize st (Some f))"
  have m0: "missingHandFramesRef ?st1 = 0"
    and lv: "lastValidHandDataRef ?st1 = snd (stabilize st (Some f))"
    by (simp_all add: stabilize_def hand_present_fields)
  have a: "emitted st (Some f # replicate k None) = snd (stabilize st (Some f))"
    if "1 \<le> k" "k \<le> 39" for k
  proof -
    from that obtain n where k: "k = Suc n" by (cases k) auto
    with that show ?thesis
      by (simp add: emitted_Cons emitted_missing m0 lv del: replicate_Suc)
  qed
  have b: "emitted st (Some f # replicate 40 None) = resetData"
    using emitted_missing [of ?st1 39] by (simp add: emitted_Cons m0 del: replicate_Suc)
  have c: "lastState (persistenceRef (run_stabilizer st (Some f # replicate 40 None))) = NEUTRAL"
    by (simp add: run_missing_lastState m0)
  have d: "missingHandFramesRef (run_stabilizer st (Some f # replicate k None)) = k" for k
    by (simp add: run_missing_fields m0)
  have e: "missingHandFramesRef (run_stabilizer st (Some f # replicate k None @ [Some g])) = 0" for k g
    by (simp add: run_stabilizer_append stabilize_def hand_present_fields)
  from a b c d e show ?thesis
    by (simp add: resetData_def origin_def)
qed



theorem grace_period_witness:
  "(1::nat) \<le> 39 \<and> (39::nat) \<le> 39
   \<and> emitted init_tracker (Some open_frame # replicate 39 None)
       = snd (stabilize init_tracker (Some open_frame))
   \<and> hasHand (snd (stabilize init_tracker (Some open_frame)))
   \<and> \<not> hasHand (emitted init_tracker (Some open_frame # replicate 40 None))"
proof -
  have "emitted init_tracker (Some open_frame # replicate 39 None)
          = snd (stabilize init_tracker (Some open_frame))"
    using grace_period [of init_tracker open_frame] by simp
  moreover have "\<not> hasHand (emitted init_tracker (Some open_frame # replicate 40 None))"
    using grace_period [of init_tracker open_frame] by simp
  moreover have "hasHand (snd (stabilize init_tracker (Some open_frame)))"
    by (simp add: stabilize_def hand_present_def Let_def)
  ultimately show ?thesis by simp
qed

text \<open>
  Claim C9. A tick without a hand, the tick of the grace expiry included, leaves the three
  counters as they were, and so does any run of such ticks (which forces the stable state
  to NEUTRAL once it is 40 ticks long). Hence a counter that exceeded 3 before the dropout
  switches the stable state to its gesture on the first tick with a hand after it, when
  that tick's frame is of the same gesture.
\<close>

theorem counters_kept_without_hand:
  "(let st' = fst (stabilize st None)
    in fistFrames (persistenceRef st') = fistFrames (persistenceRef st)
     \<and> pinchFrames (persistenceRef st') = pinchFrames (persistenceRef st)
     \<and> openFrames (persistenceRef st') = openFrames (persistenceRef st))
   \<and> (let st' = run_stabilizer st (replicate n None)
      in fistFrames (persistenceRef st') = fistFrames (persistenceRef st)
       \<and> pinchFrames (persistenceRef st') = pinchFrames (persistenceRef st)
       \<and> openFrames (persistenceRef st') = openFrames (persistenceRef st)
       \<and> (40 \<le> n \<longrightarrow> lastState (persistenceRef st') = NEUTRAL))
   \<and> (3 < pinchFrames (persistenceRef st) \<and> frameIsPinch f \<longrightarrow>
        lastState (persistenceRef (run_stabilizer st (replicate n None @ [Some f]))) = PINCH)
   \<and> (3 < fistFrames (persistenceRef st) \<and> frameIsFist f \<and> \<not> frameIsPinch f \<longrightarrow>
        lastState (persistenceRef (run_stabilizer st (replicate n None @ [Some f]))) = FIST)
   \<and> (3 < openFrames (persistenceRef st) \<and> frameIsOpen f \<and> \<not> frameIsPinch f \<and> \<not> frameIsFist f \<longrightarrow>
        lastState (persistenceRef (run_stabilizer st (replicate n None @ [Some f]))) = OPEN)"
proof -
  have one: "fistFrames (persistenceRef (fst (stabilize st None))) = fistFrames (persistenceRef st)"
    "pinchFrames (persistenceRef (fst (stabilize st None))) = pinchFrames (persistenceRef st)"
    "openFrames (persistenceRef (fst (stabilize st None))) = openFrames (persistenceRef st)"
    by (simp_all add: stabilize_def hand_missing_fields)
  have forced: "lastState (persistenceRef (run_stabilizer st (replicate n None))) = NEUTRAL"
    if "40 \<le> n"
    using that by (simp add: run_missing_lastState)
  have sw: "lastState (update_persistence p f) = PINCH" if "3 < pinchFrames p" "frameIsPinch f" for p
    using that by (simp add: update_persistence_def THRESHOLD_def Let_def)
  have sf: "lastState (update_persistence p f) = FIST"
    if "3 < fistFrames p" "frameIsFist f" "\<not> frameIsPinch f" for p
    using that by (simp add: update_persistence_def THRESHOLD_def Let_def)
  have so: "lastState (update_persistence p f) = OPEN"
    if "3 < openFrames p" "frameIsOpen f" "\<not> frameIsPinch f" "\<not> frameIsFist f" for p
    using that by (simp add: update_persistence_def THRESHOLD_def Let_def)
  show ?thesis
    unfolding Let_def persistence_after_dropout
    using one forced by (simp add: run_missing_fields sw sf so)
qed


theorem counters_kept_without_hand_witness:
  "3 < fistFrames (persistenceRef (run_stabilizer init_tracker
         [Some fist_frame, Some fist_frame, Some fist_frame, Some fist_frame]))
   \<and> frameIsFist fist_frame \<and> \<not> frameIsPinch fist_frame \<and> (40::nat) \<le> 40
   \<and> lastState (persistenceRef (run_stabilizer (run_stabilizer init_tracker
         [Some fist_frame, Some fist_frame, Some fist_frame, Some fist_frame])
         (replicate 40 None))) = NEUTRAL
   \<and> lastState (persistenceRef (run_stabilizer (run_stabilizer init_tracker
         [Some fist_frame, Some fist_frame, Some fist_frame, Some fist_frame])
         (replicate 40 None @ [Some fist_frame]))) = FIST"
proof -
  let ?st = "run_stabilizer init_tracker
               [Some fist_frame, Some fist_frame, Some fist_frame, Some fist_frame]"
  have h: "fistFrames (persistenceRef ?st) = 4"
    by (simp add: init_tracker_def fist_frame_def stabilize_def hand_present_def
        update_persistence_def THRESHOLD_def Let_def)
  have f: "frameIsFist fist_frame" "\<not> frameIsPinch fist_frame"
    by (simp_all add: fist_frame_def)
  show ?thesis
    using counters_kept_without_hand [of ?st 40 fist_frame] h f
    by (simp add: Let_def)
qed

text \<open>
  Claim C10. The tick of the grace expiry emits the reset value (pointer at the origin,
  pinch amount 1) and leaves the smoothed pointer and the smoothed pinch amount as they
  were, as does every tick without a hand. On the first tick with a hand after the
  dropout, each smoothed value moves from its value before the dropout by 0.3 of its gap
  to the raw value, and that is the value emitted.
\<close>

theorem smoothing_resumes_from_stale_values:
  "(40 \<le> missingHandFramesRef st + 1 \<longrightarrow>
      snd (stabilize st None) =
        \<lparr>hasHand = False, isOpen = False, isClosed = False, pinchDistance = 1,
         isPinching = False, palmPosition = \<lparr>vx = 0, vy = 0, vz = 0\<rparr>\<rparr>)
   \<and> smoothedRef (fst (stabilize st None)) = smoothedRef st
   \<and> smoothedRef (run_stabilizer st (replicate n None)) = smoothedRef st
   \<and> (let s = smoothedRef st;
          s' = smoothedRef (run_stabilizer st (replicate n None @ [Some f]));
          out = emitted st (replicate n None @ [Some f])
      in sm_x s' = sm_x s + (rawX f - sm_x s) * 0.3
       \<and> sm_y s' = sm_y s + (rawY f - sm_y s) * 0.3
       \<and> sm_pinch s' = sm_pinch s + (targetPinch f - sm_pinch s) * 0.3
       \<and> palmPosition out = \<lparr>vx = sm_x s', vy = sm_y s', vz = 0\<rparr>
       \<and> pinchDistance out = sm_pinch s')"
proof -
  have a: "40 \<le> missingHandFramesRef st + 1 \<Longrightarrow> snd (stabilize st None) = resetData"
    by (simp add: stabilize_def hand_missing_fields)
  have b: "smoothedRef (fst (stabilize st None)) = smoothedRef st"
    by (simp add: stabilize_def hand_missing_fields)
  have c: "smoothedRef (run_stabilizer st (replicate n None @ [Some f])) = update_smoothed (smoothedRef st) f"
    by (simp add: run_stabilizer_snoc stabilize_def hand_present_fields run_missing_fields)
  have d: "emitted st (replicate n None @ [Some f]) = snd (hand_present (run_stabilizer st (replicate n None)) f)"
    by (simp add: emitted_def stabilize_def)
  have e: "palmPosition (snd (hand_present t f)) =
             \<lparr>vx = sm_x (update_smoothed (smoothedRef t) f), vy = sm_y (update_smoothed (smoothedRef t) f), vz = 0\<rparr>"
    "pinchDistance (snd (hand_present t f)) = sm_pinch (update_smoothed (smoothedRef t) f)" for t
    by (simp_all add: hand_present_def Let_def)
  show ?thesis
    unfolding Let_def c d e
    using a b by (simp add: run_missing_fields update_smoothed_def alpha_def resetData_def origin_def)
qed


theorem smoothing_resumes_from_stale_values_witness:
  "(40::nat) \<le> missingHandFramesRef
       (init_tracker\<lparr>smoothedRef := \<lparr>sm_x = 1, sm_y = 2, sm_pinch = 0\<rparr>,
                      missingHandFramesRef := 39\<rparr>) + 1
   \<and> palmPosition (snd (stabilize
       (init_tracker\<lparr>smoothedRef := \<lparr>sm_x = 1, sm_y = 2, sm_pinch = 0\<rparr>,
                      missingHandFramesRef := 39\<rparr>) None)) = \<lparr>vx = 0, vy = 0, vz = 0\<rparr>
   \<and> sm_x (smoothedRef (run_stabilizer
       (init_tracker\<lparr>smoothedRef := \<lparr>sm_x = 1, sm_y = 2, sm_pinch = 0\<rparr>,
                      missingHandFramesRef := 39\<rparr>) (replicate 1 None @ [Some open_frame])))
       = 1 + (3 - 1) * 0.3"
proof -
  let ?st = "init_tracker\<lparr>smoothedRef := \<lparr>sm_x = 1, sm_y = 2, sm_pinch = 0\<rparr>,
                           missingHandFramesRef := 39\<rparr>"
  have h: "40 \<le> missingHandFramesRef ?st + 1" by simp
  show ?thesis
    using smoothing_resumes_from_stale_values [of ?st 1 open_frame] h
    by (simp add: Let_def open_frame_def)
qed

section \<open>Classifier\<close>

lemma count_fold:
  "fold (count_step lm ps) ts c =
     (fst c + length (filter (\<lambda>t. d lm 0 t < 1.4 * ps) ts),
      snd c + length (filter (\<lambda>t. d lm 0 t > 1.7 * ps) ts))"
  by (induction ts arbitrary: c) (simp_all add: count_step_def Let_def mult.commute)

lemma count_tips_filter:
  "count_tips lm ps =
     (length (filter (\<lambda>t. d lm 0 t < 1.4 * ps) [8, 12, 16, 20]),
      length (filter (\<lambda>t. d lm 0 t > 1.7 * ps) [8, 12, 16, 20]))"
  unfolding count_tips_def tips_def count_fold by (simp del: filter.simps)

text \<open>
  Claim C4. For a frame of 21 landmarks with \<open>palmScale > 0\<close> the classifier returns
  the first match of: FIST when at least 3 of the fingertips 8, 12, 16, 20 are nearer to
  the wrist than 1.4 times the palm scale; OPEN when at least 3 are farther than 1.7
  times; PINCH when the thumb-index distance over the palm scale is below 0.5 and the
  middle fingertip is farther than 1.5 times; else NEUTRAL; and it sets the one flag of
  that gesture. With \<open>palmScale \<le> 0\<close> it returns a frame with no flag set.
\<close>

theorem classifier_first_match:
  assumes "length lm = 21"
  shows
   "let palmScale = d lm 0 9;
        foldedTips = length (filter (\<lambda>t. d lm 0 t < 1.4 * palmScale) [8, 12, 16, 20]);
        extendedTips = length (filter (\<lambda>t. d lm 0 t > 1.7 * palmScale) [8, 12, 16, 20]);
        normPinch = d lm 4 8 / palmScale;
        g = (if 3 \<le> foldedTips then FIST
             else if 3 \<le> extendedTips then OPEN
             else if normPinch < 0.5 \<and> d lm 0 12 > 1.5 * palmScale then PINCH
             else NEUTRAL)
    in (0 < palmScale \<longrightarrow>
          map_option raw_gesture (classify lm) = Some g
        \<and> map_option (\<lambda>f. (frameIsFist f, frameIsOpen f, frameIsPinch f)) (classify lm)
             = Some (g = FIST, g = OPEN, g = PINCH))
     \<and> (palmScale \<le> 0 \<longrightarrow>
          map_option raw_gesture (classify lm) = Some NEUTRAL
        \<and> map_option (\<lambda>f. (frameIsFist f, frameIsOpen f, frameIsPinch f)) (classify lm)
             = Some (False, False, False))"
  using assms
  unfolding classify_def Let_def count_tips_filter fst_conv snd_conv
  by (simp add: raw_gesture_def mult.commute del: filter.simps)


lemma open_hand_distances:
  "d open_hand 0 9 = 1" "d open_hand 0 8 = 2" "d open_hand 0 12 = 2"
  "d open_hand 0 16 = 2" "d open_hand 0 20 = 2" "d open_hand 4 8 = 2"
  by (simp_all add: open_hand_def d_def hypot3_def origin_def)

lemma collapsed_hand_distance: "d collapsed_hand 0 9 = 0"
  by (simp add: collapsed_hand_def d_def hypot3_def)

theorem classifier_first_match_witness:
  "length open_hand = 21 \<and> 0 < d open_hand 0 9
   \<and> map_option raw_gesture (classify open_hand) = Some OPEN
   \<and> length collapsed_hand = 21 \<and> d collapsed_hand 0 9 \<le> 0
   \<and> map_option raw_gesture (classify collapsed_hand) = Some NEUTRAL"
proof -
  have l1: "length open_hand = 21" by (simp add: open_hand_def)
  have l2: "length collapsed_hand = 21" by (simp add: collapsed_hand_def)
  have a: "map_option raw_gesture (classify open_hand) = Some OPEN"
    using classifier_first_match [OF l1] by (simp add: Let_def open_hand_distances)
  have b: "map_option raw_gesture (classify collapsed_hand) = Some NEUTRAL"
    using classifier_first_match [OF l2] by (simp add: Let_def collapsed_hand_distance)
  from l1 l2 a b show ?thesis
    by (simp add: open_hand_distances collapsed_hand_distance)
qed


section \<open>Orientation controller\<close>

lemma exploded_particle_frame:
  "isExplodedRef (particle_frame ps h) = shape_update (isExplodedRef ps) h"
  by (simp add: particle_frame_def rotation_control_def Let_def)

lemma lerp_to_zero: "lerp x 0 t = (1 - t) * x"
  by (simp add: lerp_def)

lemma pointer_delta_exploded:
  "pointer_delta (st\<lparr>isExplodedRef := e\<rparr>) h = pointer_delta st h"
  by (simp add: pointer_delta_def)

lemma frame_in_deadzone:
  assumes "hasHand h \<longrightarrow> \<bar>fst (pointer_delta st h)\<bar> \<le> DEADZONE \<and> \<bar>snd (pointer_delta st h)\<bar> \<le> DEADZONE"
  shows "containerRotation (particle_frame st h)
           = auto_level (isExplodedRef (particle_frame st h)) (containerRotation st)"
  using assms
  by (simp add: particle_frame_def rotation_control_def Let_def pointer_delta_exploded not_less [symmetric])

lemma auto_level_angles:
  "ex (auto_level e r) = (if e then 1 else 0.95) * ex r"
  "ey (auto_level e r) = ey r"
  "ez (auto_level e r) = (if e then 1 else 0.95) * ez r"
  by (simp_all add: auto_level_def lerp_to_zero)

lemma deadzone_run_angles:
  "deadzone_run st hs \<Longrightarrow>
     ex (containerRotation (run_frames st hs)) = 0.95 ^ compact_ticks st hs * ex (containerRotation st)
   \<and> ey (containerRotation (run_frames st hs)) = ey (containerRotation st)
   \<and> ez (containerRotation (run_frames st hs)) = 0.95 ^ compact_ticks st hs * ez (containerRotation st)"
proof (induction hs arbitrary: st)
  case Nil
  show ?case by simp
next
  case (Cons h hs)
  from Cons.prems have dz: "hasHand h \<longrightarrow> \<bar>fst (pointer_delta st h)\<bar> \<le> DEADZONE \<and> \<bar>snd (pointer_delta st h)\<bar> \<le> DEADZONE"
    and rest: "deadzone_run (particle_frame st h) hs"
    by simp_all
  note step = frame_in_deadzone [OF dz]
  from Cons.IH [OF rest] show ?case
    by (simp add: step auto_level_angles)
qed

text \<open>
  Claim C5, as amended. Over a run of frames whose pointer deltas all lie in the dead zone
  (\<open>|dx| \<le> 0.003\<close> and \<open>|dy| \<le> 0.003\<close>), for every gesture, shape and starting
  orientation: the yaw \<open>y\<close> is unchanged; the pitch \<open>x\<close> and the roll \<open>z\<close> are each
  multiplied by 0.95 once for every frame that ends with the shape COMPACT, and by
  nothing else; so a run none of whose frames ends in COMPACT leaves all three angles
  unchanged.
\<close>

theorem deadzone_keeps_orientation:
  assumes "deadzone_run st hs"
  shows "ey (containerRotation (run_frames st hs)) = ey (containerRotation st)
   \<and> ex (containerRotation (run_frames st hs)) = 0.95 ^ compact_ticks st hs * ex (containerRotation st)
   \<and> ez (containerRotation (run_frames st hs)) = 0.95 ^ compact_ticks st hs * ez (containerRotation st)
   \<and> (compact_ticks st hs = 0 \<longrightarrow> containerRotation (run_frames st hs) = containerRotation st)"
  using deadzone_run_angles [OF assms] by (simp add: euler.equality)


text \<open>
  Claim C5 as stated fails in the shape COMPACT: one frame with a tracked hand that does
  not move changes the pitch of a tilted container.
\<close>

theorem deadzone_counterexample:
  "deadzone_run (tilted_refs False) [tracked_hand False False 0 0]
   \<and> ex (containerRotation (run_frames (tilted_refs False) [tracked_hand False False 0 0]))
        \<noteq> ex (containerRotation (tilted_refs False))"
  by (simp add: tilted_refs_def tracked_hand_def init_particle_refs_def pointer_delta_def
      DEADZONE_def particle_frame_def rotation_control_def shape_update_def auto_level_def
      lerp_def Let_def)

theorem deadzone_keeps_orientation_witness:
  "deadzone_run (tilted_refs True) [tracked_hand True False 0 0, tracked_hand True False 0.002 (- 0.003)]
   \<and> compact_ticks (tilted_refs True)
        [tracked_hand True False 0 0, tracked_hand True False 0.002 (- 0.003)] = 0
   \<and> containerRotation (run_frames (tilted_refs True)
        [tracked_hand True False 0 0, tracked_hand True False 0.002 (- 0.003)])
        = containerRotation (tilted_refs True)"
proof -
  let ?hs = "[tracked_hand True False 0 0, tracked_hand True False 0.002 (- 0.003)]"
  have e: "isExplodedRef (particle_frame st (tracked_hand True False x y))" for st x y
    by (simp add: exploded_particle_frame shape_update_def tracked_hand_def)
  have p: "pointer_delta (tilted_refs True) (tracked_hand True False 0 0) = (0, 0)"
    "pointer_delta (particle_frame (tilted_refs True) (tracked_hand True False 0 0))
       (tracked_hand True False 0.002 (- 0.003)) = (0.002, - 0.003)"
    by (simp_all add: pointer_delta_def tilted_refs_def init_particle_refs_def tracked_hand_def
        particle_frame_def rotation_control_def Let_def)
  have dz: "deadzone_run (tilted_refs True) ?hs"
    unfolding deadzone_run.simps p by (simp add: DEADZONE_def)
  have c: "compact_ticks (tilted_refs True) ?hs = 0"
    by (simp add: e)
  from deadzone_keeps_orientation [OF dz] dz c show ?thesis by simp
qed

lemma no_hand_frame:
  assumes "\<not> hasHand h"
  shows "isExplodedRef (particle_frame st h) = isExplodedRef st"
    and "containerRotation (particle_frame st h) = auto_level (isExplodedRef st) (containerRotation st)"
  using assms
  by (simp_all add: particle_frame_def rotation_control_def shape_update_def Let_def)

lemma no_hand_run:
  assumes "\<not> isExplodedRef st" "\<forall>h \<in> set hs. \<not> hasHand h"
  shows "\<not> isExplodedRef (run_frames st hs)
    \<and> ex (containerRotation (run_frames st hs)) = 0.95 ^ length hs * ex (containerRotation st)
    \<and> ey (containerRotation (run_frames st hs)) = ey (containerRotation st)
    \<and> ez (containerRotation (run_frames st hs)) = 0.95 ^ length hs * ez (containerRotation st)"
  using assms
proof (induction hs arbitrary: st)
  case Nil
  then show ?case by simp
next
  case (Cons h hs)
  from Cons.prems have h: "\<not> hasHand h" and hs: "\<forall>h \<in> set hs. \<not> hasHand h" by simp_all
  from Cons.prems(1) have "\<not> isExplodedRef (particle_frame st h)"
    by (simp add: no_hand_frame(1) [OF h])
  from Cons.IH [OF this hs] Cons.prems(1) show ?case
    by (simp add: no_hand_frame [OF h] auto_level_angles)
qed

lemma run_frames_snoc: "run_frames st (hs @ [h]) = particle_frame (run_frames st hs) h"
  by (induction hs arbitrary: st) simp_all

lemma decay_tendsto_zero: "(\<lambda>n. 0.95 ^ n * (c::real)) \<longlonglongrightarrow> 0"
proof -
  have "(\<lambda>n. (0.95::real) ^ n) \<longlonglongrightarrow> 0"
    by (rule LIMSEQ_realpow_zero) simp_all
  then have "(\<lambda>n. 0.95 ^ n * c) \<longlonglongrightarrow> 0 * c"
    by (rule tendsto_mult_right)
  then show ?thesis by simp
qed

text \<open>
  Claim C6. In the shape COMPACT, over frames without a hand, each frame moves the pitch
  \<open>x\<close> and the roll \<open>z\<close> towards 0 by 0.05 of their value: their absolute values do not
  grow, shrink when not 0, keep their sign, are \<open>0.95 ^ n\<close> times the start after \<open>n\<close>
  frames and tend to 0. The yaw \<open>y\<close> is unchanged, and the auto-level step leaves it
  unchanged for every shape.
\<close>

theorem compact_auto_level:
  assumes "\<not> isExplodedRef st" "\<forall>h \<in> set hs. \<not> hasHand h" "\<not> hasHand h"
  shows
   "let r = containerRotation (run_frames st hs);
        r' = containerRotation (run_frames st (hs @ [h]))
    in ex r' = ex r + (0 - ex r) * 0.05 \<and> ez r' = ez r + (0 - ez r) * 0.05 \<and> ey r' = ey r
     \<and> \<bar>ex r'\<bar> \<le> \<bar>ex r\<bar> \<and> \<bar>ez r'\<bar> \<le> \<bar>ez r\<bar>
     \<and> (ex r \<noteq> 0 \<longrightarrow> \<bar>ex r'\<bar> < \<bar>ex r\<bar>) \<and> (ez r \<noteq> 0 \<longrightarrow> \<bar>ez r'\<bar> < \<bar>ez r\<bar>)
     \<and> sgn (ex r') = sgn (ex r) \<and> sgn (ez r') = sgn (ez r)
     \<and> ex r = 0.95 ^ length hs * ex (containerRotation st)
     \<and> ez r = 0.95 ^ length hs * ez (containerRotation st)
     \<and> ey r = ey (containerRotation st)
     \<and> (\<lambda>n. ex (containerRotation (run_frames st (replicate n h)))) \<longlonglongrightarrow> 0
     \<and> (\<lambda>n. ez (containerRotation (run_frames st (replicate n h)))) \<longlonglongrightarrow> 0
     \<and> (\<forall>e q. ey (auto_level e q) = ey q)"
proof -
  note run = no_hand_run [OF assms(1) assms(2)]
  have step: "containerRotation (run_frames st (hs @ [h]))
                = auto_level False (containerRotation (run_frames st hs))"
    using run by (simp add: run_frames_snoc no_hand_frame [OF assms(3)])
  have rep: "ex (containerRotation (run_frames st (replicate n h))) = 0.95 ^ n * ex (containerRotation st)"
    "ez (containerRotation (run_frames st (replicate n h))) = 0.95 ^ n * ez (containerRotation st)" for n
    using no_hand_run [OF assms(1), of "replicate n h"] assms(3) by simp_all
  let ?r = "containerRotation (run_frames st hs)"
  let ?r' = "containerRotation (run_frames st (hs @ [h]))"
  have x': "ex ?r' = 0.95 * ex ?r" and z': "ez ?r' = 0.95 * ez ?r" and y': "ey ?r' = ey ?r"
    by (simp_all add: step auto_level_angles)
  have c1: "ex ?r' = ex ?r + (0 - ex ?r) * 0.05" unfolding x' by simp
  have c2: "ez ?r' = ez ?r + (0 - ez ?r) * 0.05" unfolding z' by simp
  have c3: "\<bar>ex ?r'\<bar> \<le> \<bar>ex ?r\<bar>" unfolding x' by (simp add: abs_mult)
  have c4: "\<bar>ez ?r'\<bar> \<le> \<bar>ez ?r\<bar>" unfolding z' by (simp add: abs_mult)
  have c5: "ex ?r \<noteq> 0 \<longrightarrow> \<bar>ex ?r'\<bar> < \<bar>ex ?r\<bar>" unfolding x' by (simp add: abs_mult)
  have c6: "ez ?r \<noteq> 0 \<longrightarrow> \<bar>ez ?r'\<bar> < \<bar>ez ?r\<bar>" unfolding z' by (simp add: abs_mult)
  have c7: "sgn (ex ?r') = sgn (ex ?r)" unfolding x' by (simp add: sgn_mult)
  have c8: "sgn (ez ?r') = sgn (ez ?r)" unfolding z' by (simp add: sgn_mult)
  have c9: "ex ?r = 0.95 ^ length hs * ex (containerRotation st)"
    and c10: "ez ?r = 0.95 ^ length hs * ez (containerRotation st)"
    and c11: "ey ?r = ey (containerRotation st)"
    using run by simp_all
  have c12: "(\<lambda>n. ex (containerRotation (run_frames st (replicate n h)))) \<longlonglongrightarrow> 0"
    unfolding rep by (rule decay_tendsto_zero)
  have c13: "(\<lambda>n. ez (containerRotation (run_frames st (replicate n h)))) \<longlonglongrightarrow> 0"
    unfolding rep by (rule decay_tendsto_zero)
  have c14: "\<forall>e q. ey (auto_level e q) = ey q"
    by (simp add: auto_level_angles)
  show ?thesis
    unfolding Let_def by (intro conjI; fact)
qed


theorem compact_auto_level_witness:
  "\<not> isExplodedRef (tilted_refs False) \<and> \<not> hasHand resetData
   \<and> ex (containerRotation (run_frames (tilted_refs False) [resetData])) = 0.95
   \<and> \<bar>ex (containerRotation (run_frames (tilted_refs False) ([resetData] @ [resetData])))\<bar>
        < \<bar>ex (containerRotation (run_frames (tilted_refs False) [resetData]))\<bar>"
proof -
  have h1: "\<not> isExplodedRef (tilted_refs False)"
    by (simp add: tilted_refs_def init_particle_refs_def)
  have h2: "\<forall>h \<in> set [resetData]. \<not> hasHand h" and h3: "\<not> hasHand resetData"
    by (simp_all add: resetData_def)
  have x0: "ex (containerRotation (tilted_refs False)) = 1"
    by (simp add: tilted_refs_def init_particle_refs_def)
  note T = compact_auto_level [OF h1 h2 h3, unfolded Let_def]
  from T have a: "ex (containerRotation (run_frames (tilted_refs False) [resetData])) = 0.95"
    by (simp add: x0 del: run_frames.simps)
  from T a have b: "\<bar>ex (containerRotation (run_frames (tilted_refs False) ([resetData] @ [resetData])))\<bar>
        < \<bar>ex (containerRotation (run_frames (tilted_refs False) [resetData]))\<bar>"
    by (simp del: run_frames.simps append.simps)
  from h1 h3 a b show ?thesis by (intro conjI)
qed


section \<open>Focus selector\<close>

lemma vec3_update_vy: "(p :: vec3)\<lparr>vy := y\<rparr> = \<lparr>vx = vx p, vy = y, vz = vz p\<rparr>"
  by simp

lemma closest_search_snoc:
  "closest_search (ds @ [x]) = closest_step (closest_search ds) (length ds, x)"
  by (simp add: closest_search_def enumerate_append_eq)

lemma closest_search_result:
  "(ds = [] \<longrightarrow> closest_search ds = (None, - 1))
   \<and> (ds \<noteq> [] \<longrightarrow> (\<exists>i < length ds. closest_search ds = (Some (ds ! i), int i)
          \<and> (\<forall>j < length ds. ds ! i \<le> ds ! j) \<and> (\<forall>j < i. ds ! i < ds ! j)))"
proof (induction ds rule: rev_induct)
  case Nil
  show ?case by (simp add: closest_search_def)
next
  case (snoc x ds)
  show ?case
  proof (cases "ds = []")
    case True
    then show ?thesis
      by (simp add: closest_search_def closest_step_def)
  next
    case False
    with snoc obtain i where i: "i < length ds" "closest_search ds = (Some (ds ! i), int i)"
      "\<forall>j < length ds. ds ! i \<le> ds ! j" "\<forall>j < i. ds ! i < ds ! j"
      by blast
    show ?thesis
    proof (cases "x < ds ! i")
      case True
      then have r: "closest_search (ds @ [x]) = (Some x, int (length ds))"
        by (simp add: closest_search_snoc i(2) closest_step_def)
      have "\<forall>j < length (ds @ [x]). (ds @ [x]) ! length ds \<le> (ds @ [x]) ! j"
        using True i(3) by (auto simp add: nth_append less_Suc_eq dest: spec [of _ i])
      moreover have "\<forall>j < length ds. (ds @ [x]) ! length ds < (ds @ [x]) ! j"
        using True i(3) by (auto simp add: nth_append intro: less_le_trans)
      ultimately show ?thesis
        using r by (intro conjI impI) (simp, rule exI [of _ "length ds"], simp)
    next
      case False
      then have r: "closest_search (ds @ [x]) = (Some (ds ! i), int i)"
        by (simp add: closest_search_snoc i(2) closest_step_def)
      have "\<forall>j < length (ds @ [x]). (ds @ [x]) ! i \<le> (ds @ [x]) ! j"
        using False i(1,3) by (auto simp add: nth_append less_Suc_eq)
      moreover have "\<forall>j < i. (ds @ [x]) ! i < (ds @ [x]) ! j"
        using i(1,4) by (auto simp add: nth_append)
      ultimately show ?thesis
        using r i(1) by (intro conjI impI) (simp, rule exI [of _ i], simp add: nth_append)
    qed
  qed
qed


lemma photo_distances_nth:
  "length (photo_distances applyRot rot isExploded time camera photos) = length photos"
  "i < length photos \<Longrightarrow>
     photo_distances applyRot rot isExploded time camera photos ! i
       = distanceTo (photo_world_pos applyRot rot isExploded time i (photos ! i)) camera"
  by (simp_all add: photo_distances_def nth_enumerate_eq)

lemma photo_group_frame_result:
  fixes applyRot rot isExploded time camera photos
  assumes "photos \<noteq> []"
  defines "ds \<equiv> photo_distances applyRot rot isExploded time camera photos"
  shows "\<exists>i < length photos. (\<forall>j < length photos. ds ! i \<le> ds ! j) \<and> (\<forall>j < i. ds ! i < ds ! j)
           \<and> photo_group_frame applyRot rot isExploded time camera photos prev
                = (if ds ! i < 12 then int i else - 1)"
proof -
  have len: "length ds = length photos" by (simp add: ds_def photo_distances_nth)
  with assms(1) have "ds \<noteq> []" by auto
  with closest_search_result [of ds] obtain i where i: "i < length ds"
    "closest_search ds = (Some (ds ! i), int i)"
    "\<forall>j < length ds. ds ! i \<le> ds ! j" "\<forall>j < i. ds ! i < ds ! j"
    by blast
  have "photo_group_frame applyRot rot isExploded time camera photos prev
          = (if ds ! i < 12 then int i else - 1)"
    using assms(1) i(2) unfolding photo_group_frame_def ds_def [symmetric] by (simp add: cutoff_def Let_def)
  with i len show ?thesis by auto
qed

text \<open>
  Claim C7, as amended. In a frame with at least one active photo, take for each photo the
  distance to the camera of its rotated target position: its sphere anchor when the shape
  is EXPANDED, its tree anchor with \<open>sin (time * 1.5 + k) * 0.05\<close> added to its height when
  the shape is COMPACT, rotated by the container rotation. The photo whose distance is
  below that of every other photo is hovered exactly when its distance is below 12; a
  hovered photo is always one of least distance, below 12; when every distance is 12 or
  more no photo is hovered; a photo is selected exactly when it is hovered and the hand
  is pinching; so at most one photo is hovered and at most one is selected.
\<close>

theorem focus_selection:
  assumes "photos \<noteq> []"
  shows
   "let ds = photo_distances applyRot rot isExploded time camera photos;
        c = photo_group_frame applyRot rot isExploded time camera photos prev
    in (\<forall>k < length photos.
          ds ! k = distanceTo
            (applyRot rot
               (if isExploded then spherePos (photos ! k)
                else \<lparr>vx = vx (treePos (photos ! k)),
                      vy = vy (treePos (photos ! k)) + sin (time * 1.5 + real k) * 0.05,
                      vz = vz (treePos (photos ! k))\<rparr>))
            camera)
     \<and> (\<forall>k < length photos. (\<forall>j < length photos. j \<noteq> k \<longrightarrow> ds ! k < ds ! j) \<longrightarrow>
            (isHovered c k \<longleftrightarrow> ds ! k < 12))
     \<and> (\<forall>k. isHovered c k \<longrightarrow>
            k < length photos \<and> ds ! k < 12 \<and> (\<forall>j < length photos. ds ! k \<le> ds ! j))
     \<and> ((\<forall>j < length photos. 12 \<le> ds ! j) \<longrightarrow> (\<forall>k. \<not> isHovered c k))
     \<and> (\<forall>k. isSelected c h k \<longleftrightarrow> isHovered c k \<and> isPinching h)
     \<and> (\<forall>k l. isHovered c k \<and> isHovered c l \<longrightarrow> k = l)
     \<and> (\<forall>k l. isSelected c h k \<and> isSelected c h l \<longrightarrow> k = l)"
proof -
  define ds where "ds = photo_distances applyRot rot isExploded time camera photos"
  define c where "c = photo_group_frame applyRot rot isExploded time camera photos prev"
  from photo_group_frame_result [OF assms, of applyRot rot isExploded time camera prev]
  obtain i where i: "i < length photos" "\<forall>j < length photos. ds ! i \<le> ds ! j"
    "\<forall>j < i. ds ! i < ds ! j" "c = (if ds ! i < 12 then int i else - 1)"
    unfolding ds_def c_def by blast
  have g: "\<forall>k < length photos.
          ds ! k = distanceTo
            (applyRot rot
               (if isExploded then spherePos (photos ! k)
                else \<lparr>vx = vx (treePos (photos ! k)),
                      vy = vy (treePos (photos ! k)) + sin (time * 1.5 + real k) * 0.05,
                      vz = vz (treePos (photos ! k))\<rparr>))
            camera"
    by (simp add: ds_def photo_distances_nth photo_world_pos_def local_target_def vec3_update_vy)
  have a: "\<forall>k < length photos. (\<forall>j < length photos. j \<noteq> k \<longrightarrow> ds ! k < ds ! j) \<longrightarrow>
            (isHovered c k \<longleftrightarrow> ds ! k < 12)"
  proof (intro allI impI)
    fix k assume k: "k < length photos" and u: "\<forall>j < length photos. j \<noteq> k \<longrightarrow> ds ! k < ds ! j"
    have "i = k"
    proof (rule ccontr)
      assume "i \<noteq> k"
      with u i(1) have "ds ! k < ds ! i" by blast
      moreover from i(2) k have "ds ! i \<le> ds ! k" by blast
      ultimately show False by simp
    qed
    with i(4) show "isHovered c k \<longleftrightarrow> ds ! k < 12"
      by (simp add: isHovered_def)
  qed
  have b: "\<forall>k. isHovered c k \<longrightarrow>
            k < length photos \<and> ds ! k < 12 \<and> (\<forall>j < length photos. ds ! k \<le> ds ! j)"
    using i by (auto simp add: isHovered_def split: if_splits)
  have cc: "(\<forall>j < length photos. 12 \<le> ds ! j) \<longrightarrow> (\<forall>k. \<not> isHovered c k)"
    using i(1,4) by (auto simp add: isHovered_def split: if_splits)
  have d: "\<forall>k. isSelected c h k \<longleftrightarrow> isHovered c k \<and> isPinching h"
    by (simp add: isSelected_def isHovered_def)
  have e: "\<forall>k l. isHovered c k \<and> isHovered c l \<longrightarrow> k = l"
    by (simp add: isHovered_def)
  have f: "\<forall>k l. isSelected c h k \<and> isSelected c h l \<longrightarrow> k = l"
    by (simp add: isSelected_def)
  show ?thesis
    unfolding Let_def ds_def [symmetric] c_def [symmetric]
    using g a b cc d e f by (intro conjI)
qed


lemma distance_on_axis:
  "distanceTo \<lparr>vx = 0, vy = 0, vz = a\<rparr> \<lparr>vx = 0, vy = 0, vz = b\<rparr> = \<bar>a - b\<bar>"
  by (simp add: distanceTo_def hypot3_def)

lemma swapped_targets:
  "photo_world_pos no_rotation upright True 0 0 (swapped ! 0) = \<lparr>vx = 0, vy = 0, vz = - 1\<rparr>"
  "photo_world_pos no_rotation upright True 0 1 (swapped ! 1) = \<lparr>vx = 0, vy = 0, vz = 6\<rparr>"
  by (simp_all add: photo_world_pos_def no_rotation_def local_target_def swapped_def
      photo_between_def)

lemma swapped_distances:
  "photo_distances no_rotation upright True 0 camera_position swapped = [15, 8]"
  by (simp add: photo_distances_def swapped_def photo_between_def photo_world_pos_def
      no_rotation_def local_target_def camera_position_def distance_on_axis)

text \<open>
  Claim C7 as stated fails for the positions at which the photos are drawn. One frame of
  1/60 s after the shape has become EXPANDED, the first of two photos with swapped anchors
  is drawn at distance 55/6 from the camera, nearer than the second (at 83/6) and below
  12, yet the second photo is the hovered one.
\<close>

theorem focus_current_position_counterexample:
  "distanceTo
     (photo_frame_position \<lparr>vx = 0, vy = 0, vz = 6\<rparr> False False
        (photo_world_pos no_rotation upright True 0 0 (swapped ! 0)) 0 origin (1 / 60))
     camera_position = 55 / 6
   \<and> distanceTo
     (photo_frame_position \<lparr>vx = 0, vy = 0, vz = - 1\<rparr> False True
        (photo_world_pos no_rotation upright True 0 1 (swapped ! 1)) 0 origin (1 / 60))
     camera_position = 83 / 6
   \<and> \<not> isHovered (photo_group_frame no_rotation upright True 0 camera_position swapped (- 1)) 0
   \<and> isHovered (photo_group_frame no_rotation upright True 0 camera_position swapped (- 1)) 1"
proof -
  have a: "photo_frame_position \<lparr>vx = 0, vy = 0, vz = 6\<rparr> False False
        (photo_world_pos no_rotation upright True 0 0 (swapped ! 0)) 0 origin (1 / 60)
          = \<lparr>vx = 0, vy = 0, vz = 29 / 6\<rparr>"
    unfolding swapped_targets
    by (simp add: photo_frame_position_def photo_frame_target_def vec_lerp_def)
  have b: "photo_frame_position \<lparr>vx = 0, vy = 0, vz = - 1\<rparr> False True
        (photo_world_pos no_rotation upright True 0 1 (swapped ! 1)) 0 origin (1 / 60)
          = \<lparr>vx = 0, vy = 0, vz = 1 / 6\<rparr>"
    unfolding swapped_targets
    by (simp add: photo_frame_position_def photo_frame_target_def vec_lerp_def)
  have c: "photo_group_frame no_rotation upright True 0 camera_position swapped (- 1) = 1"
    unfolding photo_group_frame_def swapped_distances
    by (simp add: swapped_def closest_search_def closest_step_def cutoff_def)
  show ?thesis
    unfolding a b c by (simp add: camera_position_def distance_on_axis isHovered_def)
qed

lemma sqrt_values: "sqrt 64 = 8" "sqrt 225 = 15" "sqrt 169 = 13"
  using real_sqrt_abs2 [of 8] real_sqrt_abs2 [of 15] real_sqrt_abs2 [of 13] by simp_all

lemma photo_at_distance:
  "distanceTo (photo_world_pos no_rotation r True t i (photo_at z)) camera_position
     = sqrt ((z - 14) * (z - 14))"
  by (simp add: distanceTo_def photo_world_pos_def no_rotation_def local_target_def photo_at_def
      camera_position_def hypot3_def)

theorem focus_selection_witness:
  "near_far \<noteq> [] \<and> far_far \<noteq> []
   \<and> photo_distances no_rotation upright True 0 camera_position near_far ! 0 = 8
   \<and> photo_distances no_rotation upright True 0 camera_position near_far ! 1 = 15
   \<and> isHovered (photo_group_frame no_rotation upright True 0 camera_position near_far (- 1)) 0
   \<and> \<not> isHovered (photo_group_frame no_rotation upright True 0 camera_position near_far (- 1)) 1
   \<and> isSelected (photo_group_frame no_rotation upright True 0 camera_position near_far (- 1))
        pinching_hand 0
   \<and> photo_distances no_rotation upright True 0 camera_position far_far ! 0 = 13
   \<and> photo_distances no_rotation upright True 0 camera_position far_far ! 1 = 15
   \<and> \<not> isHovered (photo_group_frame no_rotation upright True 0 camera_position far_far 0) 0
   \<and> \<not> isHovered (photo_group_frame no_rotation upright True 0 camera_position far_far 0) 1"
proof -
  let ?nf = "near_far"
  let ?ff = "far_far"
  let ?rot = "upright"
  let ?ds = "photo_distances no_rotation ?rot True 0 camera_position ?nf"
  let ?ds' = "photo_distances no_rotation ?rot True 0 camera_position ?ff"
  let ?c = "photo_group_frame no_rotation ?rot True 0 camera_position ?nf (- 1)"
  let ?c' = "photo_group_frame no_rotation ?rot True 0 camera_position ?ff 0"
  have ne: "?nf \<noteq> []" "?ff \<noteq> []"
    and len: "length ?nf = 2" "length ?ff = 2"
    and nth: "?nf ! 0 = photo_at 6" "?nf ! 1 = photo_at (- 1)"
      "?ff ! 0 = photo_at 1" "?ff ! 1 = photo_at (- 1)"
      "?nf ! Suc 0 = photo_at (- 1)" "?ff ! Suc 0 = photo_at (- 1)"
    by (simp_all add: near_far_def far_far_def)
  have ds: "?ds ! 0 = 8" "?ds ! 1 = 15"
    by (simp_all add: photo_distances_nth len nth photo_at_distance sqrt_values)
  have ds': "?ds' ! 0 = 13" "?ds' ! 1 = 15"
    by (simp_all add: photo_distances_nth len nth photo_at_distance sqrt_values)
  have u: "\<forall>j < length ?nf. j \<noteq> 0 \<longrightarrow> ?ds ! 0 < ?ds ! j"
    using ds by (simp add: len less_Suc_eq numeral_2_eq_2)
  have far: "\<forall>j < length ?ff. 12 \<le> ?ds' ! j"
    using ds' by (simp add: len less_Suc_eq numeral_2_eq_2)
  note T = focus_selection [OF ne(1), of no_rotation ?rot True 0 camera_position "- 1" pinching_hand,
      unfolded Let_def]
  note T' = focus_selection [OF ne(2), of no_rotation ?rot True 0 camera_position 0 pinching_hand,
      unfolded Let_def]
  have "isHovered ?c 0 \<longleftrightarrow> ?ds ! 0 < 12"
    using T [THEN conjunct2, THEN conjunct1, THEN spec, of 0] u by (simp add: len)
  then have h0: "isHovered ?c 0" by (simp add: ds)
  have imp: "isHovered ?c 1 \<longrightarrow> ?ds ! 1 < 12"
    using T [THEN conjunct2, THEN conjunct2, THEN conjunct1, THEN spec, of 1] by blast
  have h1: "\<not> isHovered ?c 1"
  proof
    assume "isHovered ?c 1"
    with imp have "?ds ! 1 < 12" by (rule mp)
    then have "(15::real) < 12" by (simp only: ds(2))
    then show False by simp
  qed
  have s0: "isSelected ?c pinching_hand 0"
    using T [THEN conjunct2, THEN conjunct2, THEN conjunct2, THEN conjunct2, THEN conjunct1,
        THEN spec, of 0] h0
    by (simp add: pinching_hand_def)
  have none: "\<forall>k. \<not> isHovered ?c' k"
    using T' [THEN conjunct2, THEN conjunct2, THEN conjunct2, THEN conjunct1] far by blast
  from none have n0: "\<not> isHovered ?c' 0" and n1: "\<not> isHovered ?c' 1" by blast+
  from ne ds h0 h1 s0 ds' n0 n1 show ?thesis by (intro conjI)
qed


section \<open>Field positions\<close>

lemma subsystem_step_length:
  "length (subsystem_step e t data i cur) = length cur"
  by (simp add: subsystem_step_def Let_def)

lemma subsystem_step_other:
  "j < 3 * i \<or> 3 * i + 2 < j \<Longrightarrow> subsystem_step e t data i cur ! j = cur ! j"
  by (auto simp add: subsystem_step_def Let_def)

lemma subsystem_step_own:
  assumes "3 * i + 2 < length cur"
  shows "subsystem_step e t data i cur ! (3 * i)
           = cur ! (3 * i) + (vx (local_target e t i (data ! i)) - cur ! (3 * i)) * 0.08"
    and "subsystem_step e t data i cur ! (3 * i + 1)
           = cur ! (3 * i + 1) + (vy (local_target e t i (data ! i)) - cur ! (3 * i + 1)) * 0.08"
    and "subsystem_step e t data i cur ! (3 * i + 2)
           = cur ! (3 * i + 2) + (vz (local_target e t i (data ! i)) - cur ! (3 * i + 2)) * 0.08"
  using assms
  by (simp_all add: subsystem_step_def Let_def lerpFactor_def mult.commute [of i 3])

lemma fold_steps:
  assumes "3 * k \<le> length cur"
  shows "length (fold (subsystem_step e t data) [0..<k] cur) = length cur
    \<and> (\<forall>j. 3 * k \<le> j \<longrightarrow> fold (subsystem_step e t data) [0..<k] cur ! j = cur ! j)
    \<and> (\<forall>i < k.
          fold (subsystem_step e t data) [0..<k] cur ! (3 * i)
            = cur ! (3 * i) + (vx (local_target e t i (data ! i)) - cur ! (3 * i)) * 0.08
        \<and> fold (subsystem_step e t data) [0..<k] cur ! (3 * i + 1)
            = cur ! (3 * i + 1) + (vy (local_target e t i (data ! i)) - cur ! (3 * i + 1)) * 0.08
        \<and> fold (subsystem_step e t data) [0..<k] cur ! (3 * i + 2)
            = cur ! (3 * i + 2) + (vz (local_target e t i (data ! i)) - cur ! (3 * i + 2)) * 0.08)"
  using assms
proof (induction k)
  case 0
  show ?case by simp
next
  case (Suc k)
  let ?F = "fold (subsystem_step e t data) [0..<k] cur"
  from Suc.prems have k: "3 * k \<le> length cur" and room: "3 * k + 2 < length cur" by simp_all
  note IH = Suc.IH [OF k]
  have F: "fold (subsystem_step e t data) [0..<Suc k] cur = subsystem_step e t data k ?F"
    by simp
  have len: "length ?F = length cur" using IH by blast
  have same: "?F ! j = cur ! j" if "3 * k \<le> j" for j using IH that by blast
  have room': "3 * k + 2 < length ?F" using room len by simp
  have a: "length (subsystem_step e t data k ?F) = length cur"
    by (simp add: subsystem_step_length len)
  have b: "subsystem_step e t data k ?F ! j = cur ! j" if "3 * Suc k \<le> j" for j
    using that by (simp add: subsystem_step_other same)
  have c: "subsystem_step e t data k ?F ! (3 * i)
            = cur ! (3 * i) + (vx (local_target e t i (data ! i)) - cur ! (3 * i)) * 0.08
        \<and> subsystem_step e t data k ?F ! (3 * i + 1)
            = cur ! (3 * i + 1) + (vy (local_target e t i (data ! i)) - cur ! (3 * i + 1)) * 0.08
        \<and> subsystem_step e t data k ?F ! (3 * i + 2)
            = cur ! (3 * i + 2) + (vz (local_target e t i (data ! i)) - cur ! (3 * i + 2)) * 0.08"
    if "i < Suc k" for i
  proof (cases "i = k")
    case True
    have s0: "?F ! (3 * k) = cur ! (3 * k)" "?F ! (3 * k + 1) = cur ! (3 * k + 1)"
      "?F ! (3 * k + 2) = cur ! (3 * k + 2)"
      by (rule same, simp)+
    show ?thesis
      unfolding True subsystem_step_own [OF room'] s0 by (intro conjI refl)
  next
    case False
    with that have "i < k" by simp
    then have "3 * i + 2 < 3 * k" by simp
    then have "subsystem_step e t data k ?F ! (3 * i) = ?F ! (3 * i)"
      "subsystem_step e t data k ?F ! (3 * i + 1) = ?F ! (3 * i + 1)"
      "subsystem_step e t data k ?F ! (3 * i + 2) = ?F ! (3 * i + 2)"
      by (simp_all add: subsystem_step_other)
    with IH \<open>i < k\<close> show ?thesis by simp
  qed
  show ?case
    unfolding F using a b c by blast
qed





section \<open>Pipeline: facts about ticks and runs\<close>

lemma run_pipeline_append:
  "run_pipeline sc s (xs @ ys) = run_pipeline sc (run_pipeline sc s xs) ys"
  by (induction xs arbitrary: s) simp_all

lemma run_pipeline_snoc:
  "run_pipeline sc s (xs @ [x]) = pipeline_tick sc (run_pipeline sc s xs) x"
  by (simp add: run_pipeline_append)

lemma tracker_run_pipeline:
  "tracker_refs (run_pipeline sc s ticks) = run_stabilizer (tracker_refs s) (map fst ticks)"
  by (induction ticks arbitrary: s) (simp_all add: pipeline_tick_def Let_def)

lemma tick_fields:
  "tracker_refs (pipeline_tick sc s x) = fst (stabilize (tracker_refs s) (fst x))"
  "particles (pipeline_tick sc s x)
     = particle_frame (particles s) (snd (stabilize (tracker_refs s) (fst x)))"
  "currentPositions (pipeline_tick sc s x)
     = subsystem_frame (isExplodedRef (particles s)) (snd x) (sub_data sc) (currentPositions s)"
  "displayProps (pipeline_tick sc s x)
     = photo_display_props (rotateBy sc) (containerRotation (particles s))
         (isExplodedRef (particles s)) (snd x) (photo_data sc) (displayProps s)"
  by (simp_all add: pipeline_tick_def Let_def)

lemma length_init_positions: "length (init_positions data) = 3 * length data"
  by (induction data) (simp_all add: init_positions_def)

lemma fold_steps_length:
  "length (fold (subsystem_step e t data) is cur) = length cur"
  by (induction "is" arbitrary: cur) (simp_all add: subsystem_step_length)

lemma subsystem_frame_length: "length (subsystem_frame e t data cur) = length cur"
  by (simp add: subsystem_frame_def fold_steps_length)

lemma positions_length_run:
  "length (currentPositions (run_pipeline sc s ticks)) = length (currentPositions s)"
  by (induction ticks arbitrary: s) (simp_all add: tick_fields subsystem_frame_length)

lemma positions_length_init:
  "length (currentPositions (run_pipeline sc (init_pipeline sc) ticks)) = 3 * length (sub_data sc)"
  by (simp add: positions_length_run init_pipeline_def length_init_positions)

lemma subsystem_moved:
  assumes "3 * length data \<le> length cur" "i < length data"
  shows "moved_towards cur (subsystem_frame e t data cur) i (local_target e t i (data ! i))"
  using fold_steps [OF assms(1), of e t data] assms(2)
  unfolding moved_towards_def subsystem_frame_def by blast

lemma map_enumerate_snd:
  "map (\<lambda>x. f (snd x)) (enumerate n xs) = map f xs"
  by (induction xs arbitrary: n) simp_all

lemma photo_display_props_expanded:
  assumes "photos \<noteq> []"
  shows "photo_display_props applyRot rot True t photos prev
           = map (\<lambda>p. applyRot rot (spherePos p)) photos"
proof -
  have "(\<lambda>(i, p). photo_world_pos applyRot rot True t i p)
          = (\<lambda>x. applyRot rot (spherePos (snd x)))"
    by (simp add: fun_eq_iff photo_world_pos_def local_target_def)
  with assms map_enumerate_snd [of "\<lambda>p. applyRot rot (spherePos p)" 0 photos] show ?thesis
    by (simp add: photo_display_props_def)
qed

lemma expanded_frame:
  assumes "isExplodedRef (particles s)" "3 * length (sub_data sc) \<le> length (currentPositions s)"
  shows "\<forall>i < length (sub_data sc).
           moved_towards (currentPositions s) (currentPositions (pipeline_tick sc s x)) i
             (spherePos (sub_data sc ! i))"
    and "photo_data sc \<noteq> [] \<longrightarrow>
           displayProps (pipeline_tick sc s x)
             = map (\<lambda>p. rotateBy sc (containerRotation (particles s)) (spherePos p)) (photo_data sc)"
proof -
  show "\<forall>i < length (sub_data sc).
           moved_towards (currentPositions s) (currentPositions (pipeline_tick sc s x)) i
             (spherePos (sub_data sc ! i))"
  proof (intro allI impI)
    fix i assume "i < length (sub_data sc)"
    from subsystem_moved [OF assms(2) this, of True "snd x"] assms(1)
    show "moved_towards (currentPositions s) (currentPositions (pipeline_tick sc s x)) i
             (spherePos (sub_data sc ! i))"
      by (simp add: tick_fields local_target_def)
  qed
  show "photo_data sc \<noteq> [] \<longrightarrow>
           displayProps (pipeline_tick sc s x)
             = map (\<lambda>p. rotateBy sc (containerRotation (particles s)) (spherePos p)) (photo_data sc)"
    using assms(1) by (simp add: tick_fields photo_display_props_expanded)
qed

lemma compact_frame:
  assumes "\<not> isExplodedRef (particles s)" "3 * length (sub_data sc) \<le> length (currentPositions s)"
  shows "\<forall>i < length (sub_data sc).
           moved_towards (currentPositions s) (currentPositions (pipeline_tick sc s x)) i
             \<lparr>vx = vx (treePos (sub_data sc ! i)),
              vy = vy (treePos (sub_data sc ! i)) + sin (snd x * 1.5 + real i) * 0.05,
              vz = vz (treePos (sub_data sc ! i))\<rparr>"
proof (intro allI impI)
  fix i assume "i < length (sub_data sc)"
  from subsystem_moved [OF assms(2) this, of False "snd x"] assms(1)
  show "moved_towards (currentPositions s) (currentPositions (pipeline_tick sc s x)) i
             \<lparr>vx = vx (treePos (sub_data sc ! i)),
              vy = vy (treePos (sub_data sc ! i)) + sin (snd x * 1.5 + real i) * 0.05,
              vz = vz (treePos (sub_data sc ! i))\<rparr>"
    by (simp add: tick_fields local_target_def vec3_update_vy)
qed

lemma fist_streak_snoc:
  "fist_streak (xs @ [None]) = fist_streak xs"
  "fist_streak (xs @ [Some f]) = (if frameIsFist f then Suc (fist_streak xs) else 0)"
  by (simp_all add: fist_streak_def map_filter_def)

lemma fistFrames_le_streak:
  "fistFrames (persistenceRef (run_stabilizer st obss))
     \<le> fistFrames (persistenceRef st) + fist_streak obss"
proof (induction obss rule: rev_induct)
  case Nil
  show ?case by (simp add: fist_streak_def map_filter_def)
next
  case (snoc obs obss)
  show ?case
  proof (cases obs)
    case None
    with snoc show ?thesis
      by (simp add: run_stabilizer_snoc stabilize_def hand_missing_fields fist_streak_snoc)
  next
    case (Some f)
    with snoc show ?thesis
      by (simp add: run_stabilizer_snoc stabilize_def persistence_hand_present
          update_persistence_def Let_def fist_streak_snoc)
  qed
qed

lemma not_closed_tick:
  assumes "not_closed s"
    and "fistFrames (persistenceRef (tracker_refs (pipeline_tick sc s x))) \<le> 3"
  shows "not_closed (pipeline_tick sc s x)"
proof (cases "fst x")
  case None
  with assms(1) show ?thesis
    by (simp add: not_closed_def tick_fields stabilize_def hand_missing_def Let_def
        exploded_particle_frame shape_update_def resetData_def)
next
  case (Some f)
  from assms(2) Some have le: "fistFrames (update_persistence (persistenceRef (tracker_refs s)) f) \<le> 3"
    by (simp add: tick_fields stabilize_def persistence_hand_present)
  have ns: "lastState (update_persistence (persistenceRef (tracker_refs s)) f) \<noteq> FIST"
    using le assms(1)
    by (auto simp add: update_persistence_def Let_def THRESHOLD_def not_closed_def split: if_splits)
  with assms(1) Some show ?thesis
    by (simp add: not_closed_def tick_fields stabilize_def hand_present_def Let_def
        exploded_particle_frame shape_update_def)
qed

lemma stays_expanded:
  assumes "not_closed s" "fistFrames (persistenceRef (tracker_refs s)) = 0"
    and "\<forall>k \<le> length rest. fist_streak (map fst (take k rest)) \<le> 3"
  shows "not_closed (run_pipeline sc s rest)"
  using assms(3)
proof (induction rest rule: rev_induct)
  case Nil
  with assms(1) show ?case by simp
next
  case (snoc x rest)
  have "\<forall>k \<le> length rest. fist_streak (map fst (take k rest)) \<le> 3"
  proof (intro allI impI)
    fix k assume "k \<le> length rest"
    then have "k \<le> length (rest @ [x])" by simp
    with snoc.prems have "fist_streak (map fst (take k (rest @ [x]))) \<le> 3" by blast
    with \<open>k \<le> length rest\<close> show "fist_streak (map fst (take k rest)) \<le> 3" by simp
  qed
  then have nc: "not_closed (run_pipeline sc s rest)" by (rule snoc.IH)
  from snoc.prems have "fist_streak (map fst (take (length (rest @ [x])) (rest @ [x]))) \<le> 3"
    by blast
  then have "fist_streak (map fst (rest @ [x])) \<le> 3" by simp
  with fistFrames_le_streak [of "tracker_refs s" "map fst (rest @ [x])"] assms(2)
  have "fistFrames (persistenceRef (tracker_refs (run_pipeline sc s (rest @ [x])))) \<le> 3"
    by (simp add: tracker_run_pipeline)
  then have "fistFrames (persistenceRef (tracker_refs (pipeline_tick sc (run_pipeline sc s rest) x))) \<le> 3"
    by (simp add: run_pipeline_append)
  with nc have "not_closed (pipeline_tick sc (run_pipeline sc s rest) x)" by (rule not_closed_tick)
  then show ?case by (simp add: run_pipeline_append)
qed

lemma fist_streak_le_length: "fist_streak obss \<le> length obss"
proof -
  have "fist_streak obss \<le> length (rev (List.map_filter id obss))"
    unfolding fist_streak_def by (rule length_takeWhile_le)
  also have "\<dots> \<le> length obss"
    by (simp add: map_filter_def)
  finally show ?thesis .
qed

lemma fist_tick:
  assumes "frameIsFist g" "\<not> frameIsPinch g"
  shows "fistFrames (persistenceRef (tracker_refs (pipeline_tick sc s (Some g, u))))
           = fistFrames (persistenceRef (tracker_refs s)) + 1"
    and "3 < fistFrames (persistenceRef (tracker_refs (pipeline_tick sc s (Some g, u))))
           \<Longrightarrow> \<not> isExplodedRef (particles (pipeline_tick sc s (Some g, u)))"
  using assms
  by (simp_all add: tick_fields stabilize_def hand_present_def Let_def
      update_persistence_def THRESHOLD_def exploded_particle_frame shape_update_def)

lemma four_fists_compact:
  assumes "\<forall>g \<in> set [g0, g1, g2, g3]. frameIsFist g \<and> \<not> frameIsPinch g"
  shows "\<not> isExplodedRef (particles
           (run_pipeline sc s [(Some g0, u0), (Some g1, u1), (Some g2, u2), (Some g3, u3)]))"
proof -
  let ?s1 = "pipeline_tick sc s (Some g0, u0)"
  let ?s2 = "pipeline_tick sc ?s1 (Some g1, u1)"
  let ?s3 = "pipeline_tick sc ?s2 (Some g2, u2)"
  let ?s4 = "pipeline_tick sc ?s3 (Some g3, u3)"
  from assms have g: "frameIsFist g0" "\<not> frameIsPinch g0" "frameIsFist g1" "\<not> frameIsPinch g1"
    "frameIsFist g2" "\<not> frameIsPinch g2" "frameIsFist g3" "\<not> frameIsPinch g3"
    by simp_all
  have "fistFrames (persistenceRef (tracker_refs ?s4)) = fistFrames (persistenceRef (tracker_refs s)) + 4"
    by (simp add: fist_tick(1) g)
  then have "3 < fistFrames (persistenceRef (tracker_refs ?s4))" by simp
  then have "\<not> isExplodedRef (particles ?s4)"
    by (rule fist_tick(2) [OF g(7) g(8)])
  then show ?thesis by simp
qed

lemma open_ticks:
  assumes "\<forall>f \<in> set [f0, f1, f2, f3, f4]. frameIsOpen f \<and> \<not> frameIsFist f \<and> \<not> frameIsPinch f"
  shows "lastState (persistenceRef (tracker_refs (run_pipeline sc (init_pipeline sc)
           [(Some f0, t0), (Some f1, t1), (Some f2, t2)]))) = NEUTRAL"
    and "\<not> isExplodedRef (particles (run_pipeline sc (init_pipeline sc)
           [(Some f0, t0), (Some f1, t1), (Some f2, t2)]))"
    and "lastState (persistenceRef (tracker_refs (run_pipeline sc (init_pipeline sc)
           [(Some f0, t0), (Some f1, t1), (Some f2, t2), (Some f3, t3)]))) = OPEN"
    and "isExplodedRef (particles (run_pipeline sc (init_pipeline sc)
           [(Some f0, t0), (Some f1, t1), (Some f2, t2), (Some f3, t3)]))"
    and "lastState (persistenceRef (tracker_refs (run_pipeline sc (init_pipeline sc)
           [(Some f0, t0), (Some f1, t1), (Some f2, t2), (Some f3, t3), (Some f4, t4)]))) = OPEN"
    and "isExplodedRef (particles (run_pipeline sc (init_pipeline sc)
           [(Some f0, t0), (Some f1, t1), (Some f2, t2), (Some f3, t3), (Some f4, t4)]))"
    and "not_closed (run_pipeline sc (init_pipeline sc)
           [(Some f0, t0), (Some f1, t1), (Some f2, t2), (Some f3, t3), (Some f4, t4)])"
    and "fistFrames (persistenceRef (tracker_refs (run_pipeline sc (init_pipeline sc)
           [(Some f0, t0), (Some f1, t1), (Some f2, t2), (Some f3, t3), (Some f4, t4)]))) = 0"
  using assms
  by (simp_all add: init_pipeline_def init_tracker_def init_particle_refs_def resetData_def
      tick_fields stabilize_def hand_present_def update_persistence_def Let_def
      THRESHOLD_def exploded_particle_frame shape_update_def not_closed_def)


section \<open>Pipeline: the claims\<close>

text \<open>
  Claim C2, as amended. From the initial state, with a frame of raw gesture OPEN on each
  of the ticks 0 to 4: after tick 2 the stable state is still NEUTRAL and the shape
  COMPACT; at tick 3, the fourth OPEN frame, the stable state becomes OPEN and the shape
  EXPANDED, and both are so after tick 4. In the frame of tick 4 and in every later frame
  every object of the \<open>SubSystem\<close> moves towards its sphere anchor, and the positions
  that \<open>PhotoGroup\<close> computes are the rotated sphere anchors, for as long as the frames
  with a hand before that frame have not shown four FIST frames in a row; four FIST
  frames in a row make the shape COMPACT. The theorem states in addition that in the
  frame of tick 3 the objects still move towards their tree anchors (with the
  oscillation): they read the shape before \<open>ParticleSystem\<close> writes it.
\<close>

theorem open_run_expands:
  assumes "\<forall>f \<in> set [f0, f1, f2, f3, f4]. frameIsOpen f \<and> \<not> frameIsFist f \<and> \<not> frameIsPinch f"
  shows
   "let three = [(Some f0, t0), (Some f1, t1), (Some f2, t2)];
        four = [(Some f0, t0), (Some f1, t1), (Some f2, t2), (Some f3, t3)];
        five = [(Some f0, t0), (Some f1, t1), (Some f2, t2), (Some f3, t3), (Some f4, t4)];
        after = run_pipeline sc (init_pipeline sc);
        stable = (\<lambda>s. lastState (persistenceRef (tracker_refs s)));
        exploded = (\<lambda>s. isExplodedRef (particles s))
    in stable (after three) = NEUTRAL \<and> \<not> exploded (after three)
     \<and> stable (after four) = OPEN \<and> exploded (after four)
     \<and> stable (after five) = OPEN \<and> exploded (after five)
     \<and> (\<forall>i < length (sub_data sc).
           moved_towards (currentPositions (after three)) (currentPositions (after four)) i
             \<lparr>vx = vx (treePos (sub_data sc ! i)),
              vy = vy (treePos (sub_data sc ! i)) + sin (t3 * 1.5 + real i) * 0.05,
              vz = vz (treePos (sub_data sc ! i))\<rparr>)
     \<and> (\<forall>i < length (sub_data sc).
           moved_towards (currentPositions (after four)) (currentPositions (after five)) i
             (spherePos (sub_data sc ! i)))
     \<and> (photo_data sc \<noteq> [] \<longrightarrow>
           displayProps (after five)
             = map (\<lambda>p. rotateBy sc (containerRotation (particles (after four))) (spherePos p))
                 (photo_data sc))
     \<and> (\<forall>rest x. (\<forall>k \<le> length rest. fist_streak (map fst (take k rest)) \<le> 3) \<longrightarrow>
           exploded (after (five @ rest))
         \<and> (\<forall>i < length (sub_data sc).
               moved_towards (currentPositions (after (five @ rest)))
                 (currentPositions (after (five @ rest @ [x]))) i (spherePos (sub_data sc ! i)))
         \<and> (photo_data sc \<noteq> [] \<longrightarrow>
               displayProps (after (five @ rest @ [x]))
                 = map (\<lambda>p. rotateBy sc (containerRotation (particles (after (five @ rest))))
                               (spherePos p))
                     (photo_data sc)))
     \<and> (\<forall>rest g0 g1 g2 g3 u0 u1 u2 u3.
           (\<forall>g \<in> set [g0, g1, g2, g3]. frameIsFist g \<and> \<not> frameIsPinch g) \<longrightarrow>
           \<not> exploded (after (five @ rest
                @ [(Some g0, u0), (Some g1, u1), (Some g2, u2), (Some g3, u3)])))"
proof -
  let ?three = "[(Some f0, t0), (Some f1, t1), (Some f2, t2)]"
  let ?four = "[(Some f0, t0), (Some f1, t1), (Some f2, t2), (Some f3, t3)]"
  let ?five = "[(Some f0, t0), (Some f1, t1), (Some f2, t2), (Some f3, t3), (Some f4, t4)]"
  let ?after = "run_pipeline sc (init_pipeline sc)"
  note o = open_ticks [OF assms]
  have room: "3 * length (sub_data sc) \<le> length (currentPositions (?after ticks))" for ticks
    by (simp add: positions_length_init)
  have four: "?after ?four = pipeline_tick sc (?after ?three) (Some f3, t3)"
    using run_pipeline_snoc [of sc "init_pipeline sc" ?three "(Some f3, t3)"] by simp
  have five: "?after ?five = pipeline_tick sc (?after ?four) (Some f4, t4)"
    using run_pipeline_snoc [of sc "init_pipeline sc" ?four "(Some f4, t4)"] by simp
  have c3: "\<forall>i < length (sub_data sc).
           moved_towards (currentPositions (?after ?three)) (currentPositions (?after ?four)) i
             \<lparr>vx = vx (treePos (sub_data sc ! i)),
              vy = vy (treePos (sub_data sc ! i)) + sin (t3 * 1.5 + real i) * 0.05,
              vz = vz (treePos (sub_data sc ! i))\<rparr>"
    using compact_frame [OF o(2) room, where x = "(Some f3, t3)"] unfolding four by simp
  have c4: "\<forall>i < length (sub_data sc).
           moved_towards (currentPositions (?after ?four)) (currentPositions (?after ?five)) i
             (spherePos (sub_data sc ! i))"
    unfolding five by (rule expanded_frame(1) [OF o(4) room])
  have p4: "photo_data sc \<noteq> [] \<longrightarrow>
           displayProps (?after ?five)
             = map (\<lambda>p. rotateBy sc (containerRotation (particles (?after ?four))) (spherePos p))
                 (photo_data sc)"
    unfolding five by (rule expanded_frame(2) [OF o(4) room])
  have safe: "isExplodedRef (particles (?after (?five @ rest)))
         \<and> (\<forall>i < length (sub_data sc).
               moved_towards (currentPositions (?after (?five @ rest)))
                 (currentPositions (?after (?five @ rest @ [x]))) i (spherePos (sub_data sc ! i)))
         \<and> (photo_data sc \<noteq> [] \<longrightarrow>
               displayProps (?after (?five @ rest @ [x]))
                 = map (\<lambda>p. rotateBy sc (containerRotation (particles (?after (?five @ rest))))
                               (spherePos p))
                     (photo_data sc))"
    if "\<forall>k \<le> length rest. fist_streak (map fst (take k rest)) \<le> 3" for rest x
  proof -
    have "not_closed (run_pipeline sc (?after ?five) rest)"
      using o(7) o(8) that by (rule stays_expanded)
    then have e: "isExplodedRef (particles (?after (?five @ rest)))"
      by (simp only: run_pipeline_append not_closed_def)
    have nx: "?after (?five @ rest @ [x]) = pipeline_tick sc (?after (?five @ rest)) x"
      using run_pipeline_snoc [of sc "init_pipeline sc" "?five @ rest" x]
      by (simp only: append_assoc)
    show ?thesis
      unfolding nx using e expanded_frame [OF e room, where x = x] by (intro conjI)
  qed
  have live: "\<not> isExplodedRef (particles (?after (?five @ rest
                @ [(Some g0, u0), (Some g1, u1), (Some g2, u2), (Some g3, u3)])))"
    if "\<forall>g \<in> set [g0, g1, g2, g3]. frameIsFist g \<and> \<not> frameIsPinch g"
    for rest g0 g1 g2 g3 u0 u1 u2 u3
  proof -
    have eq: "?after (?five @ rest @ [(Some g0, u0), (Some g1, u1), (Some g2, u2), (Some g3, u3)])
            = run_pipeline sc (?after (?five @ rest))
                [(Some g0, u0), (Some g1, u1), (Some g2, u2), (Some g3, u3)]"
      using run_pipeline_append [of sc "init_pipeline sc" "?five @ rest"
          "[(Some g0, u0), (Some g1, u1), (Some g2, u2), (Some g3, u3)]"]
      by (simp only: append_assoc)
    show ?thesis unfolding eq by (rule four_fists_compact [OF that])
  qed
  from safe have safe': "\<forall>rest x. (\<forall>k \<le> length rest. fist_streak (map fst (take k rest)) \<le> 3) \<longrightarrow>
           isExplodedRef (particles (?after (?five @ rest)))
         \<and> (\<forall>i < length (sub_data sc).
               moved_towards (currentPositions (?after (?five @ rest)))
                 (currentPositions (?after (?five @ rest @ [x]))) i (spherePos (sub_data sc ! i)))
         \<and> (photo_data sc \<noteq> [] \<longrightarrow>
               displayProps (?after (?five @ rest @ [x]))
                 = map (\<lambda>p. rotateBy sc (containerRotation (particles (?after (?five @ rest))))
                               (spherePos p))
                     (photo_data sc))"
    by blast
  from live have live': "\<forall>rest g0 g1 g2 g3 u0 u1 u2 u3.
           (\<forall>g \<in> set [g0, g1, g2, g3]. frameIsFist g \<and> \<not> frameIsPinch g) \<longrightarrow>
           \<not> isExplodedRef (particles (?after (?five @ rest
                @ [(Some g0, u0), (Some g1, u1), (Some g2, u2), (Some g3, u3)])))"
    by blast
  show ?thesis
    unfolding Let_def
    using o(1) o(2) o(3) o(4) o(5) o(6) c3 c4 p4 safe' live' by (intro conjI)
qed

text \<open>
  Claim C2 as stated fails: the stable state is OPEN and the shape EXPANDED already after
  tick 3, so neither becomes so at tick 4.
\<close>

theorem open_run_counterexample:
  "lastState (persistenceRef (tracker_refs (run_pipeline example_scene (init_pipeline example_scene)
      [(Some open_frame, 0), (Some open_frame, 0), (Some open_frame, 0), (Some open_frame, 0)])))
     = OPEN
   \<and> isExplodedRef (particles (run_pipeline example_scene (init_pipeline example_scene)
      [(Some open_frame, 0), (Some open_frame, 0), (Some open_frame, 0), (Some open_frame, 0)]))"
  by (simp add: init_pipeline_def init_tracker_def init_particle_refs_def resetData_def
      tick_fields stabilize_def hand_present_def update_persistence_def Let_def
      THRESHOLD_def exploded_particle_frame shape_update_def open_frame_def)


theorem open_run_expands_witness:
  "frameIsOpen open_frame \<and> \<not> frameIsFist open_frame \<and> \<not> frameIsPinch open_frame
   \<and> frameIsFist fist_frame \<and> \<not> frameIsPinch fist_frame
   \<and> fist_streak (map fst
         [(Some fist_frame, 0 :: real), (None, 0), (Some fist_frame, 0), (Some fist_frame, 0)]) = 3
   \<and> 1 < length (sub_data example_scene) \<and> photo_data example_scene \<noteq> []
   \<and> isExplodedRef (particles (run_pipeline example_scene (init_pipeline example_scene)
        ([(Some open_frame, 0), (Some open_frame, 0), (Some open_frame, 0), (Some open_frame, 0),
          (Some open_frame, 0)] @ [(Some fist_frame, 0), (None, 0), (Some fist_frame, 0), (Some fist_frame, 0)])))
   \<and> moved_towards
        (currentPositions (run_pipeline example_scene (init_pipeline example_scene)
          ([(Some open_frame, 0), (Some open_frame, 0), (Some open_frame, 0), (Some open_frame, 0),
          (Some open_frame, 0)] @ [(Some fist_frame, 0), (None, 0), (Some fist_frame, 0), (Some fist_frame, 0)])))
        (currentPositions (run_pipeline example_scene (init_pipeline example_scene)
          ([(Some open_frame, 0), (Some open_frame, 0), (Some open_frame, 0), (Some open_frame, 0),
          (Some open_frame, 0)] @ [(Some fist_frame, 0), (None, 0), (Some fist_frame, 0), (Some fist_frame, 0)] @ [(Some fist_frame, 0)])))
        1 (spherePos (sub_data example_scene ! 1))
   \<and> displayProps (run_pipeline example_scene (init_pipeline example_scene)
        ([(Some open_frame, 0), (Some open_frame, 0), (Some open_frame, 0), (Some open_frame, 0),
          (Some open_frame, 0)] @ [(Some fist_frame, 0), (None, 0), (Some fist_frame, 0), (Some fist_frame, 0)] @ [(Some fist_frame, 0)]))
        = [\<lparr>vx = 0, vy = 0, vz = 6\<rparr>, \<lparr>vx = 0, vy = 0, vz = - 1\<rparr>]
   \<and> \<not> isExplodedRef (particles (run_pipeline example_scene (init_pipeline example_scene)
        ([(Some open_frame, 0), (Some open_frame, 0), (Some open_frame, 0), (Some open_frame, 0),
          (Some open_frame, 0)] @ [] @ [(Some fist_frame, 0), (Some fist_frame, 0), (Some fist_frame, 0), (Some fist_frame, 0)])))"
proof -
  let ?five = "[(Some open_frame, 0), (Some open_frame, 0), (Some open_frame, 0), (Some open_frame, 0),
          (Some open_frame, 0)]"
  let ?rest = "[(Some fist_frame, 0 :: real), (None, 0), (Some fist_frame, 0), (Some fist_frame, 0)]"
  let ?after = "run_pipeline example_scene (init_pipeline example_scene)"
  have h1: "\<forall>f \<in> set [open_frame, open_frame, open_frame, open_frame, open_frame].
       frameIsOpen f \<and> \<not> frameIsFist f \<and> \<not> frameIsPinch f"
    by (simp add: open_frame_def)
  have st: "fist_streak (map fst ?rest) = 3"
    by (simp add: fist_streak_def map_filter_def fist_frame_def)
  have h2: "\<forall>k \<le> length ?rest. fist_streak (map fst (take k ?rest)) \<le> 3"
  proof (intro allI impI)
    fix k
    assume k: "k \<le> length ?rest"
    show "fist_streak (map fst (take k ?rest)) \<le> 3"
    proof (cases "k \<le> 3")
      case True
      have "fist_streak (map fst (take k ?rest)) \<le> length (map fst (take k ?rest))"
        by (rule fist_streak_le_length)
      with True show ?thesis by simp
    next
      case False
      with k have "k = 4" by simp
      with st show ?thesis by simp
    qed
  qed
  have h3: "\<forall>g \<in> set [fist_frame, fist_frame, fist_frame, fist_frame]. frameIsFist g \<and> \<not> frameIsPinch g"
    by (simp add: fist_frame_def)
  have i: "1 < length (sub_data example_scene)" and ph: "photo_data example_scene \<noteq> []"
    by (simp_all add: example_scene_def near_far_def)
  note T = open_run_expands [OF h1, where sc = example_scene and ?t0.0 = 0 and ?t1.0 = 0
      and ?t2.0 = 0 and ?t3.0 = 0 and ?t4.0 = 0, unfolded Let_def]
  note S = T [THEN conjunct2, THEN conjunct2, THEN conjunct2, THEN conjunct2, THEN conjunct2,
      THEN conjunct2, THEN conjunct2, THEN conjunct2, THEN conjunct2, THEN conjunct1,
      THEN spec, THEN spec, THEN mp, OF h2]
  have safe: "isExplodedRef (particles (?after (?five @ ?rest)))"
    by (rule S [THEN conjunct1])
  have mv: "moved_towards (currentPositions (?after (?five @ ?rest)))
        (currentPositions (?after (?five @ ?rest @ [(Some fist_frame, 0)])))
        1 (spherePos (sub_data example_scene ! 1))"
    by (rule S [THEN conjunct2, THEN conjunct1, THEN spec, THEN mp, OF i])
  have "displayProps (?after (?five @ ?rest @ [(Some fist_frame, 0)]))
        = map (\<lambda>p. rotateBy example_scene
                 (containerRotation (particles (?after (?five @ ?rest)))) (spherePos p))
            (photo_data example_scene)"
    by (rule S [THEN conjunct2, THEN conjunct2, THEN mp, OF ph])
  also have "\<dots> = [\<lparr>vx = 0, vy = 0, vz = 6\<rparr>, \<lparr>vx = 0, vy = 0, vz = - 1\<rparr>]"
    by (simp add: example_scene_def no_rotation_def near_far_def photo_at_def
        del: run_pipeline.simps)
  finally have dp: "displayProps (?after (?five @ ?rest @ [(Some fist_frame, 0)]))
        = [\<lparr>vx = 0, vy = 0, vz = 6\<rparr>, \<lparr>vx = 0, vy = 0, vz = - 1\<rparr>]" .
  have live: "\<not> isExplodedRef (particles (?after (?five @ [] @ [(Some fist_frame, 0), (Some fist_frame, 0), (Some fist_frame, 0), (Some fist_frame, 0)])))"
    by (rule T [THEN conjunct2, THEN conjunct2, THEN conjunct2, THEN conjunct2, THEN conjunct2,
          THEN conjunct2, THEN conjunct2, THEN conjunct2, THEN conjunct2, THEN conjunct2,
          THEN spec, THEN spec, THEN spec, THEN spec, THEN spec, THEN spec, THEN spec,
          THEN spec, THEN spec, THEN mp, OF h3])
  have fo: "frameIsOpen open_frame" "\<not> frameIsFist open_frame" "\<not> frameIsPinch open_frame"
    by (simp_all add: open_frame_def)
  have ff: "frameIsFist fist_frame" "\<not> frameIsPinch fist_frame"
    by (simp_all add: fist_frame_def)
  from fo ff st i ph safe mv dp live show ?thesis by (intro conjI)
qed

end
